theory Spec2Isabelle
  imports Main "HOL-Library.Word"
begin

section \<open>JavaScript values\<close>

text \<open>
  The export models work on plain data: the items of the overview, the QC flags attached
  to them and the responses of the QC flag endpoint are JSON-like values. Numbers are the
  integers from \<open>-2^53\<close> to \<open>2^53 - 1\<close> (run numbers, identifiers, timestamps in
  milliseconds), the signed values of 54 bits: JavaScript holds each of them exactly and
  prints it digit for digit. Larger numbers, fractions, \<open>NaN\<close>, the infinities and the
  negative zero are left out. An object is the list of its own properties in creation
  order, all of them data and none of them a function; its prototype is
  \<open>Object.prototype\<close>. That object itself is a value too: the program can come to hold it
  where it reads the key \<open>__proto__\<close> of an object.
\<close>

datatype jsval =
    JUndefined
  | JNull
  | JBool bool
  | JNum "54 word"
  | JStr string
  | JArr "jsval list"
  | JObj "(string \<times> jsval) list"
  | JObjectPrototype

type_synonym jsobj = "(string \<times> jsval) list"

datatype exn = TypeError

text \<open>\<open>ToBoolean\<close>: what \<open>if (v)\<close>, \<open>!v\<close> and \<open>v || w\<close> test.\<close>

fun truthy :: "jsval \<Rightarrow> bool" where
  "truthy JUndefined = False"
| "truthy JNull = False"
| "truthy (JBool b) = b"
| "truthy (JNum n) = (n \<noteq> 0)"
| "truthy (JStr s) = (s \<noteq> [])"
| "truthy (JArr xs) = True"
| "truthy (JObj ps) = True"
| "truthy JObjectPrototype = True"

text \<open>The values \<open>?.\<close> and \<open>??\<close> treat as missing.\<close>

fun nullish :: "jsval \<Rightarrow> bool" where
  "nullish JUndefined = True"
| "nullish JNull = True"
| "nullish v = False"

subsection \<open>Conversion to strings\<close>

definition digit_char :: "int \<Rightarrow> char" where
  "digit_char d = ''0123456789'' ! nat d"

function digits :: "int \<Rightarrow> string" where
  "digits n = (if n < 10 then [digit_char n] else digits (n div 10) @ [digit_char (n mod 10)])"
  by pat_completeness auto
termination
  by (relation "measure nat") auto

declare digits.simps [simp del]

definition num_str :: "int \<Rightarrow> string" where
  "num_str i = (if i < 0 then CHR ''-'' # digits (- i) else digits i)"

text \<open>\<open>Array.prototype.join\<close> on an array of strings.\<close>

fun join :: "string \<Rightarrow> string list \<Rightarrow> string" where
  "join sep [] = []"
| "join sep [x] = x"
| "join sep (x # y # ys) = x @ sep @ join sep (y # ys)"

text \<open>
  \<open>ToString\<close>, which a template literal applies to each substitution and a computed
  member access \<open>obj[v]\<close> applies to its key. An array prints its elements separated by
  commas, \<open>null\<close> and \<open>undefined\<close> elements as nothing. An object is printed by its
  method \<open>toString\<close>: the inherited one prints \<open>[object Object]\<close>; an own property
  \<open>toString\<close> hides it and, being no function, leaves only \<open>valueOf\<close> to try, which
  is no function either or returns the object itself, so that the conversion throws a
  \<open>TypeError\<close>.
\<close>

fun toString :: "jsval \<Rightarrow> exn + string"
  and toStrings :: "jsval list \<Rightarrow> exn + string list" where
  "toString JUndefined = Inr ''undefined''"
| "toString JNull = Inr ''null''"
| "toString (JBool b) = Inr (if b then ''true'' else ''false'')"
| "toString (JNum n) = Inr (num_str (sint n))"
| "toString (JStr s) = Inr s"
| "toString (JArr xs) =
     (case toStrings xs of Inl e \<Rightarrow> Inl e | Inr strs \<Rightarrow> Inr (join '','' strs))"
| "toString (JObj ps) =
     (if map_of ps ''toString'' = None then Inr ''[object Object]'' else Inl TypeError)"
| "toString JObjectPrototype = Inr ''[object Object]''"
| "toStrings [] = Inr []"
| "toStrings (x # xs) =
     (case (if nullish x then Inr [] else toString x) of
        Inl e \<Rightarrow> Inl e
      | Inr str \<Rightarrow>
          (case toStrings xs of Inl e \<Rightarrow> Inl e | Inr strs \<Rightarrow> Inr (str # strs)))"

definition toPropertyKey :: "jsval \<Rightarrow> exn + string" where
  "toPropertyKey v = toString v"

subsection \<open>Property access\<close>

text \<open>
  \<open>v.k\<close> for the property names this program reads (\<open>qcFlags\<close>, \<open>detector\<close>,
  \<open>flagType\<close>, \<open>from\<close>, \<open>to\<close>, \<open>name\<close>, \<open>runNumber\<close>, \<open>items\<close>): none of them is a
  built-in member of objects, arrays, strings, numbers or booleans, nor a property of
  \<open>Object.prototype\<close>, so the access finds an own property of an object or nothing.
  Reading a property of \<open>null\<close> or \<open>undefined\<close> throws, as does destructuring them.
\<close>

fun opt_prop :: "jsval \<Rightarrow> string \<Rightarrow> jsval" where
  "opt_prop (JObj ps) k = (case map_of ps k of Some v \<Rightarrow> v | None \<Rightarrow> JUndefined)"
| "opt_prop v k = JUndefined"

definition get_prop :: "jsval \<Rightarrow> string \<Rightarrow> exn + jsval" where
  "get_prop v k = (if nullish v then Inl TypeError else Inr (opt_prop v k))"

subsection \<open>Objects\<close>

text \<open>
  A key is an array index when it is the canonical decimal form of an integer from
  \<open>0\<close> to \<open>2^32 - 2\<close>. JavaScript enumerates the own properties of an object with the
  array indices first, in ascending order, and the other keys after them in creation order.
\<close>

definition digit_value :: "char \<Rightarrow> int" where
  "digit_value c = of_char c - 48"

definition is_digit :: "char \<Rightarrow> bool" where
  "is_digit c = (c \<in> set ''0123456789'')"

definition array_index :: "string \<Rightarrow> int option" where
  "array_index k =
     (if k \<noteq> [] \<and> list_all is_digit k \<and> (k = ''0'' \<or> hd k \<noteq> CHR ''0'')
         \<and> length k \<le> 10 \<and> foldl (\<lambda>acc c. 10 * acc + digit_value c) 0 k < 4294967295
      then Some (foldl (\<lambda>acc c. 10 * acc + digit_value c) 0 k) else None)"

text \<open>\<open>Object.entries\<close>\<close>

definition entries :: "jsobj \<Rightarrow> (string \<times> jsval) list" where
  "entries ps =
     sort_key (\<lambda>p. the (array_index (fst p))) (filter (\<lambda>p. array_index (fst p) \<noteq> None) ps)
     @ filter (\<lambda>p. array_index (fst p) = None) ps"

text \<open>Defining an own property: an existing key keeps its place, a new one comes last.\<close>

fun obj_set :: "string \<Rightarrow> jsval \<Rightarrow> jsobj \<Rightarrow> jsobj" where
  "obj_set k v [] = [(k, v)]"
| "obj_set k v (p # ps) = (if fst p = k then (k, v) # ps else p # obj_set k v ps)"

text \<open>\<open>Object.fromEntries\<close>: a later entry with the same key overwrites the earlier one.\<close>

definition fromEntries :: "(string \<times> jsval) list \<Rightarrow> jsobj" where
  "fromEntries es = foldl (\<lambda>obj (k, v). obj_set k v obj) [] es"

text \<open>
  The spread \<open>{ ...v }\<close> copies the own enumerable properties: those of an object, the
  elements of an array and the characters of a string under their indices, nothing of any
  other value.
\<close>

fun spread :: "jsval \<Rightarrow> jsobj" where
  "spread (JObj ps) = entries ps"
| "spread (JArr xs) = map (\<lambda>i. (digits (int i), xs ! i)) [0..<length xs]"
| "spread (JStr s) = map (\<lambda>i. (digits (int i), JStr [s ! i])) [0..<length s]"
| "spread v = []"

text \<open>The field of a record under a key, if the record has one.\<close>

fun own_property :: "jsval \<Rightarrow> string \<Rightarrow> jsval option" where
  "own_property (JObj ps) k = map_of ps k"
| "own_property v k = None"

text \<open>
  Modelled from the spec: the helper \<open>pick\<close> of \<open>utilities/pick.js\<close>, which the export
  models import and which is not part of the sources at hand. It projects a record on the
  selected fields, in their configured order; a field key that the record does not have is
  dropped (the projection is an intersection, not a join). The spec defines it for records,
  that is objects; no other value has a field to project.
\<close>

definition pick :: "jsval \<Rightarrow> string list \<Rightarrow> jsobj" where
  "pick obj keys =
     fromEntries
       (map (\<lambda>k. (k, the (own_property obj k))) (filter (\<lambda>k. own_property obj k \<noteq> None) keys))"

section \<open>The observable behaviour of an export\<close>

text \<open>
  \<open>RemoteData\<close>, the state of the fetch that feeds the overview, with the errors of
  \<open>RemoteData.failure\<close> as title and detail.
\<close>

record error_info =
  title :: string
  detail :: string

datatype 'a remote_data =
    NotAsked
  | Loading
  | Success (payload: 'a)
  | Failure "error_info list"

fun isSuccess :: "'a remote_data \<Rightarrow> bool" where
  "isSuccess (Success p) = True"
| "isSuccess rd = False"

text \<open>
  What a call does to the outside, in the order it does it: the error callback, the
  notification of the observers of the model and of its visual-change observable, a
  request to the QC flag endpoint (data pass, run number, page limit), and the two file
  sinks of \<open>utilities/export.js\<close> (rows, file name, MIME type).
\<close>

datatype effect =
    SetError "error_info list"
  | Notify
  | VisualNotify
  | Fetch jsval jsval nat
  | CSVExport "jsobj list" string string
  | JSONExport "jsobj list" string string

text \<open>An \<open>async\<close> method returns a promise, which is fulfilled, or rejected by a throw.\<close>

datatype completion = Fulfilled | Rejected exn

type_synonym outcome = "effect list \<times> completion"

fun map_exn :: "('a \<Rightarrow> exn + 'b) \<Rightarrow> 'a list \<Rightarrow> exn + 'b list" where
  "map_exn f [] = Inr []"
| "map_exn f (x # xs) =
     (case f x of
        Inl e \<Rightarrow> Inl e
      | Inr y \<Rightarrow> (case map_exn f xs of Inl e \<Rightarrow> Inl e | Inr ys \<Rightarrow> Inr (y # ys)))"

section \<open>OverviewExportModel\<close>

text \<open>
  The formatter registry \<open>exportFormats\<close>: what \<open>exportFormats[key]\<close> holds, with its
  optional \<open>exportFormat\<close>, a function of the raw value and the item that returns the
  value to export and does nothing else. A key without an entry and an entry without that
  function are formatted alike, by the identity.
\<close>

type_synonym formatter = "jsval \<Rightarrow> jsval \<Rightarrow> jsval"

record field_format =
  exportFormat :: "formatter option"

type_synonym export_formats = "string \<Rightarrow> field_format option"

record export_model =
  items :: "jsval list remote_data"
  selectedFields :: "string list"
  selectedExportType :: jsval

definition getSelectedExportType :: "'a export_model_scheme \<Rightarrow> jsval" where
  "getSelectedExportType m = selectedExportType m"

definition setSelectedExportType ::
  "jsval \<Rightarrow> 'a export_model_scheme \<Rightarrow> effect list \<times> 'a export_model_scheme" where
  "setSelectedExportType exportType m =
     ([Notify, VisualNotify], m\<lparr>selectedExportType := exportType\<rparr>)"

definition getSelectedFields :: "'a export_model_scheme \<Rightarrow> string list" where
  "getSelectedFields m = selectedFields m"

definition setSelectedFields ::
  "string list \<Rightarrow> 'a export_model_scheme \<Rightarrow> effect list \<times> 'a export_model_scheme" where
  "setSelectedFields selectedOptions m =
     ([Notify, VisualNotify], m\<lparr>selectedFields := foldl (\<lambda>fs v. fs @ [v]) [] selectedOptions\<rparr>)"

definition setItemsSource ::
  "jsval list remote_data \<Rightarrow> 'a export_model_scheme \<Rightarrow> 'a export_model_scheme" where
  "setItemsSource its m = m\<lparr>items := its\<rparr>"

subsection \<open>The steps of createExport\<close>

text \<open>
  \<open>item.qcFlags?.forEach(...)\<close> runs over the elements of an array, does nothing when the
  item has no flags, and throws when \<open>item\<close> is \<open>null\<close> or \<open>undefined\<close> or when
  \<open>qcFlags\<close> is any other value, which has no \<open>forEach\<close> to call.
\<close>

definition qcFlags_of :: "jsval \<Rightarrow> exn + jsval list" where
  "qcFlags_of item =
     (case get_prop item ''qcFlags'' of
        Inl e \<Rightarrow> Inl e
      | Inr JUndefined \<Rightarrow> Inr []
      | Inr JNull \<Rightarrow> Inr []
      | Inr (JArr flags) \<Rightarrow> Inr flags
      | Inr other \<Rightarrow> Inl TypeError)"

text \<open>
  \<open>detectors.add(name)\<close> on the \<open>Set\<close>, which keeps its elements in insertion order. The
  names are compared as values, which is how a \<open>Set\<close> compares strings, numbers and
  booleans. (It compares objects and arrays by reference; names that are equal as values
  have the same key and the same texts, so that the second of them overwrites the column
  of the first with the same value.)
\<close>

definition set_add :: "jsval \<Rightarrow> jsval list \<Rightarrow> jsval list" where
  "set_add v vs = (if v \<in> set vs then vs else vs @ [v])"

text \<open>The first loop: the detectors of the flags of all items.\<close>

fun add_detectors :: "jsval list \<Rightarrow> jsval list \<Rightarrow> exn + jsval list" where
  "add_detectors detectors [] = Inr detectors"
| "add_detectors detectors (flag # flags) =
     (case get_prop flag ''detector'' of
        Inl e \<Rightarrow> Inl e
      | Inr detector \<Rightarrow>
          add_detectors
            (if truthy (opt_prop detector ''name'')
             then set_add (opt_prop detector ''name'') detectors else detectors)
            flags)"

fun scan_detectors :: "jsval list \<Rightarrow> jsval list \<Rightarrow> exn + jsval list" where
  "scan_detectors detectors [] = Inr detectors"
| "scan_detectors detectors (item # its) =
     (case qcFlags_of item of
        Inl e \<Rightarrow> Inl e
      | Inr flags \<Rightarrow>
          (case add_detectors detectors flags of
             Inl e \<Rightarrow> Inl e
           | Inr detectors' \<Rightarrow> scan_detectors detectors' its))"

text \<open>The projection of an item on the selected fields, each value formatted.\<close>

definition formatter_for :: "export_formats \<Rightarrow> string \<Rightarrow> formatter" where
  "formatter_for exportFormats key =
     (case exportFormats key of
        None \<Rightarrow> (\<lambda>v item. v)
      | Some fmt \<Rightarrow> (case exportFormat fmt of None \<Rightarrow> (\<lambda>v item. v) | Some f \<Rightarrow> f))"

definition mapped_entries :: "export_formats \<Rightarrow> string list \<Rightarrow> jsval \<Rightarrow> (string \<times> jsval) list" where
  "mapped_entries exportFormats selected item =
     map (\<lambda>(key, v). (key, formatter_for exportFormats key v item))
       (entries (pick item selected))"

text \<open>
  \<open>perDetectorFlags\<close> starts as the object literal \<open>{}\<close>, so \<open>perDetectorFlags[k]\<close> finds
  the texts collected under \<open>k\<close>, or a member that every object inherits from
  \<open>Object.prototype\<close>, or nothing. An inherited member is truthy and is no array: \<open>push\<close>
  and \<open>join\<close> are not functions of it.
\<close>

definition object_prototype_keys :: "string list" where
  "object_prototype_keys =
     [''constructor'', ''__defineGetter__'', ''__defineSetter__'', ''hasOwnProperty'',
      ''__lookupGetter__'', ''__lookupSetter__'', ''isPrototypeOf'', ''propertyIsEnumerable'',
      ''toString'', ''valueOf'', ''__proto__'', ''toLocaleString'']"

datatype member = Own "string list" | Inherited | Absent

definition member_of :: "(string \<rightharpoonup> string list) \<Rightarrow> string \<Rightarrow> member" where
  "member_of perDetectorFlags k =
     (case perDetectorFlags k of
        Some texts \<Rightarrow> Own texts
      | None \<Rightarrow> if k \<in> set object_prototype_keys then Inherited else Absent)"

text \<open>
  The template literal \<open>`${flagType?.name ?? ''} ( from: ${from} to: ${to} )`\<close>: its
  three substitutions are converted from left to right, and the first conversion that throws
  ends it.
\<close>

definition flag_text :: "jsval \<Rightarrow> jsval \<Rightarrow> jsval \<Rightarrow> exn + string" where
  "flag_text flagType from to =
     (case (if nullish (opt_prop flagType ''name'') then Inr []
            else toString (opt_prop flagType ''name'')) of
        Inl e \<Rightarrow> Inl e
      | Inr name \<Rightarrow>
          (case toString from of
             Inl e \<Rightarrow> Inl e
           | Inr since \<Rightarrow>
               (case toString to of
                  Inl e \<Rightarrow> Inl e
                | Inr until \<Rightarrow>
                    Inr (name @ '' ( from: '' @ since @ '' to: '' @ until @ '' )''))))"

fun collect_flags ::
  "(string \<rightharpoonup> string list) \<Rightarrow> jsval list \<Rightarrow> exn + (string \<rightharpoonup> string list)" where
  "collect_flags perDetectorFlags [] = Inr perDetectorFlags"
| "collect_flags perDetectorFlags (flag # flags) =
     (if nullish flag then Inl TypeError
      else
        let detName = opt_prop (opt_prop flag ''detector'') ''name'' in
          if \<not> truthy detName then collect_flags perDetectorFlags flags
          else
            (case flag_text (opt_prop flag ''flagType'') (opt_prop flag ''from'')
                    (opt_prop flag ''to'') of
               Inl e \<Rightarrow> Inl e
             | Inr text \<Rightarrow>
                 (case toPropertyKey detName of
                    Inl e \<Rightarrow> Inl e
                  | Inr key \<Rightarrow>
                      (case member_of perDetectorFlags key of
                         Absent \<Rightarrow> collect_flags (perDetectorFlags(key \<mapsto> [text])) flags
                       | Own texts \<Rightarrow>
                           collect_flags (perDetectorFlags(key \<mapsto> texts @ [text])) flags
                       | Inherited \<Rightarrow> Inl TypeError))))"

text \<open>\<open>[det, (perDetectorFlags[det] || []).join('|')]\<close>, the key as the row will hold it.\<close>

definition detector_column :: "(string \<rightharpoonup> string list) \<Rightarrow> jsval \<Rightarrow> exn + string \<times> jsval" where
  "detector_column perDetectorFlags det =
     (case toPropertyKey det of
        Inl e \<Rightarrow> Inl e
      | Inr key \<Rightarrow>
          (case member_of perDetectorFlags key of
             Own texts \<Rightarrow> Inr (key, JStr (join ''|'' texts))
           | Absent \<Rightarrow> Inr (key, JStr (join ''|'' []))
           | Inherited \<Rightarrow> Inl TypeError))"

text \<open>The callback of \<open>items.map\<close>: one row of the export.\<close>

definition format_item ::
  "export_formats \<Rightarrow> string list \<Rightarrow> jsval list \<Rightarrow> jsval \<Rightarrow> exn + jsobj" where
  "format_item exportFormats selected detectors item =
     (case qcFlags_of item of
        Inl e \<Rightarrow> Inl e
      | Inr flags \<Rightarrow>
          (case collect_flags Map.empty flags of
             Inl e \<Rightarrow> Inl e
           | Inr perDetectorFlags \<Rightarrow>
               (case map_exn (detector_column perDetectorFlags) detectors of
                  Inl e \<Rightarrow> Inl e
                | Inr columns \<Rightarrow>
                    Inr (fromEntries (mapped_entries exportFormats selected item @ columns)))))"

text \<open>Everything from the first loop to the rows, shared word for word by both models.\<close>

definition format_items ::
  "export_formats \<Rightarrow> string list \<Rightarrow> jsval list \<Rightarrow> exn + jsobj list" where
  "format_items exportFormats selected its =
     (case scan_detectors [] its of
        Inl e \<Rightarrow> Inl e
      | Inr detectors \<Rightarrow> map_exn (format_item exportFormats selected detectors) its)"

definition dispatch :: "jsval \<Rightarrow> string \<Rightarrow> jsobj list \<Rightarrow> effect" where
  "dispatch exportType fileName formatted =
     (if exportType = JStr ''CSV''
      then CSVExport formatted (fileName @ ''.csv'') ''text/csv;charset=utf-8;''
      else JSONExport formatted (fileName @ ''.json'') ''application/json'')"

definition no_data_found :: "error_info list" where
  "no_data_found =
     [\<lparr>title = ''No data found'', detail = ''No items were found with the provided filters''\<rparr>]"

subsection \<open>createExport\<close>

text \<open>The part after the early exit: the rows, and the sink the export type selects.\<close>

definition export_items ::
  "string \<Rightarrow> export_formats \<Rightarrow> 'a export_model_scheme \<Rightarrow> jsval list \<Rightarrow> outcome" where
  "export_items fileName exportFormats m its =
     (case format_items exportFormats (getSelectedFields m) its of
        Inl e \<Rightarrow> ([], Rejected e)
      | Inr formatted \<Rightarrow> ([dispatch (getSelectedExportType m) fileName formatted], Fulfilled))"

text \<open>The callback \<open>setError\<close> is optional: \<open>setError\<close> below says whether it was given.\<close>

definition createExport ::
  "string \<Rightarrow> export_formats \<Rightarrow> bool \<Rightarrow> 'a export_model_scheme \<Rightarrow> outcome" where
  "createExport fileName exportFormats setError m =
     (let itemsRemoteData = items m;
          its = (if isSuccess itemsRemoteData then payload itemsRemoteData else [])
      in
        if \<not> isSuccess itemsRemoteData \<or> length its = 0
        then ((if setError then [SetError no_data_found] else []) @ [Notify], Fulfilled)
        else export_items fileName exportFormats m its)"

section \<open>RunsPerDataPassExportModel\<close>

record rdp_export_model = export_model +
  dataPassId :: jsval

definition setDataPassId :: "jsval \<Rightarrow> rdp_export_model \<Rightarrow> rdp_export_model" where
  "setDataPassId newId m = m\<lparr>dataPassId := newId\<rparr>"

text \<open>
  The QC flag endpoint behind \<open>getRemoteDataSlice\<close>: what the request for a data pass
  and a run number settles to, which may differ from one request of a call to the next
  (the first argument counts the requests the call has made before). A request that cannot
  be built or sent rejects as well; every request settles.
\<close>

datatype response = Resolves jsval | Rejects

type_synonym remote = "nat \<Rightarrow> jsval \<Rightarrow> jsval \<Rightarrow> response"

text \<open>
  What a settled request leaves to be stored: the \<open>items\<close> of the answer, and the empty
  array when the request is rejected or when the answer is \<open>null\<close> or \<open>undefined\<close>, whose
  destructuring throws into the \<open>catch\<close>.
\<close>

definition fetched_items :: "response \<Rightarrow> jsval" where
  "fetched_items r =
     (case r of
        Rejects \<Rightarrow> JArr []
      | Resolves v \<Rightarrow> (case get_prop v ''items'' of Inl e \<Rightarrow> JArr [] | Inr its \<Rightarrow> its))"

text \<open>
  The \<open>map\<close> of \<open>_fetchQcFlags\<close> is the object literal \<open>{}\<close>: its own properties, and
  its prototype, which is \<open>Object.prototype\<close> at first and which an assignment to the key
  \<open>__proto__\<close> can replace by an object or by \<open>null\<close> (\<open>None\<close> below).
\<close>

record qcmap =
  own :: "string \<rightharpoonup> jsval"
  proto :: "jsval option"

definition empty_qcmap :: qcmap where
  "empty_qcmap = \<lparr>own = Map.empty, proto = Some JObjectPrototype\<rparr>"

fun is_object :: "jsval \<Rightarrow> bool" where
  "is_object (JArr xs) = True"
| "is_object (JObj ps) = True"
| "is_object JObjectPrototype = True"
| "is_object v = False"

text \<open>
  Whether the key \<open>__proto__\<close> finds the accessor of \<open>Object.prototype\<close> from the map:
  the map has no own property of that name, its prototype is not \<open>null\<close>, and the
  prototype, the array or object of an answer, has no own property of that name either
  (every prototype chain of these values ends in \<open>Object.prototype\<close>).
\<close>

definition proto_accessor :: "qcmap \<Rightarrow> bool" where
  "proto_accessor qcMap =
     (own qcMap ''__proto__'' = None
      \<and> (case proto qcMap of None \<Rightarrow> False | Some p \<Rightarrow> own_property p ''__proto__'' = None))"

text \<open>
  \<open>map[key] = v\<close>. Under every key but \<open>__proto__\<close> this defines an own property (what
  the map inherits under a key is a writable data property). Under \<open>__proto__\<close> it
  calls the setter of the accessor where the key finds it: an object becomes the prototype
  of the map, \<open>null\<close> removes the prototype, any other value is ignored.
\<close>

definition qc_set :: "string \<Rightarrow> jsval \<Rightarrow> qcmap \<Rightarrow> qcmap" where
  "qc_set key v qcMap =
     (if key = ''__proto__'' \<and> proto_accessor qcMap
      then (if is_object v then qcMap\<lparr>proto := Some v\<rparr>
            else if v = JNull then qcMap\<lparr>proto := None\<rparr>
            else qcMap)
      else qcMap\<lparr>own := (own qcMap)(key \<mapsto> v)\<rparr>)"

text \<open>
  \<open>qcMap[key]\<close>: the own property, and for the key \<open>__proto__\<close> without an own property
  what the prototype chain gives: the own property of the prototype, or through the
  accessor the prototype itself, or \<open>undefined\<close> below a \<open>null\<close> prototype. createExport
  reads the map under the keys that \<open>_fetchQcFlags\<close> has written (lemma
  \<open>fetchQcFlags_written\<close>), so that a key other than \<open>__proto__\<close> is an own property
  when it is read; the last case below does not occur.
\<close>

definition qc_get :: "qcmap \<Rightarrow> string \<Rightarrow> jsval" where
  "qc_get qcMap key =
     (case own qcMap key of
        Some v \<Rightarrow> v
      | None \<Rightarrow>
          if key = ''__proto__''
          then (case proto qcMap of
                  None \<Rightarrow> JUndefined
                | Some p \<Rightarrow> (case own_property p ''__proto__'' of Some v \<Rightarrow> v | None \<Rightarrow> p))
          else JUndefined)"

text \<open>
  \<open>_fetchQcFlags\<close>: one request after the other, each in its own \<open>try\<close>. Both the
  \<open>try\<close> and its \<open>catch\<close> end with an assignment to \<open>map[runNumber]\<close>, which converts
  the run number to a key: when that conversion throws, it throws in the \<open>try\<close> (or the
  request was rejected) and again in the \<open>catch\<close>, from where the \<open>TypeError\<close> leaves the
  method after the request for that run number and before any other.
\<close>

fun fetchQcFlags ::
  "remote \<Rightarrow> jsval \<Rightarrow> nat \<Rightarrow> qcmap \<Rightarrow> jsval list \<Rightarrow> effect list \<times> (exn + qcmap)" where
  "fetchQcFlags getRemoteDataSlice dpId n qcMap [] = ([], Inr qcMap)"
| "fetchQcFlags getRemoteDataSlice dpId n qcMap (runNumber # runNumbers) =
     (case toPropertyKey runNumber of
        Inl e \<Rightarrow> ([Fetch dpId runNumber 1000], Inl e)
      | Inr key \<Rightarrow>
          (let (effs, res) =
                 fetchQcFlags getRemoteDataSlice dpId (Suc n)
                   (qc_set key (fetched_items (getRemoteDataSlice n dpId runNumber)) qcMap)
                   runNumbers
           in (Fetch dpId runNumber 1000 # effs, res)))"

text \<open>\<open>(run) => ({ ...run, qcFlags: qcMap[run.runNumber] || [] })\<close>\<close>

definition with_flags :: "qcmap \<Rightarrow> jsval \<Rightarrow> exn + jsval" where
  "with_flags qcMap run =
     (case get_prop run ''runNumber'' of
        Inl e \<Rightarrow> Inl e
      | Inr runNumber \<Rightarrow>
          (case toPropertyKey runNumber of
             Inl e \<Rightarrow> Inl e
           | Inr key \<Rightarrow>
               (let flags = qc_get qcMap key
                in Inr (JObj (obj_set ''qcFlags'' (if truthy flags then flags else JArr [])
                                (spread run))))))"

text \<open>
  The body of the \<open>try\<close> in createExport: the requests made, and the items with their
  flags or the throw. It throws before any request when an item is \<open>null\<close> or
  \<open>undefined\<close>, and after the requests made so far when \<open>_fetchQcFlags\<close> throws.
\<close>

definition enrich :: "remote \<Rightarrow> jsval \<Rightarrow> jsval list \<Rightarrow> effect list \<times> (exn + jsval list)" where
  "enrich getRemoteDataSlice dpId its =
     (case map_exn (\<lambda>item. get_prop item ''runNumber'') its of
        Inl e \<Rightarrow> ([], Inl e)
      | Inr runNumbers \<Rightarrow>
          (case fetchQcFlags getRemoteDataSlice dpId 0 empty_qcmap runNumbers of
             (effs, Inl e) \<Rightarrow> (effs, Inl e)
           | (effs, Inr qcMap) \<Rightarrow> (effs, map_exn (with_flags qcMap) its)))"

definition qc_flags_fetch_failed :: "error_info list" where
  "qc_flags_fetch_failed =
     [\<lparr>title = ''QC flags fetch failed'', detail = ''Unable to fetch QC flags for export''\<rparr>]"

definition rdp_createExport ::
  "remote \<Rightarrow> string \<Rightarrow> export_formats \<Rightarrow> bool \<Rightarrow> rdp_export_model \<Rightarrow> outcome" where
  "rdp_createExport getRemoteDataSlice fileName exportFormats setError m =
     (let itemsRemoteData = items m;
          its = (if isSuccess itemsRemoteData then payload itemsRemoteData else [])
      in
        if \<not> isSuccess itemsRemoteData \<or> length its = 0
        then ((if setError then [SetError no_data_found] else []) @ [Notify], Fulfilled)
        else if truthy (dataPassId m)
        then
          (case enrich getRemoteDataSlice (dataPassId m) its of
             (effs, Inl e) \<Rightarrow>
               (effs @ (if setError then [SetError qc_flags_fetch_failed] else []), Fulfilled)
           | (effs, Inr itemsWithFlags) \<Rightarrow>
               (let (effs', c) = export_items fileName exportFormats m itemsWithFlags
                in (effs @ effs', c)))
        else export_items fileName exportFormats m its)"

section \<open>Notions used in the properties\<close>

text \<open>The snapshot of the items is no success, or a success whose payload is empty.\<close>

definition no_items :: "jsval list remote_data \<Rightarrow> bool" where
  "no_items rd = (\<not> isSuccess rd \<or> rd = Success [])"

text \<open>The calls of the CSV and JSON sinks, and the requests, among the effects.\<close>

fun is_sink :: "effect \<Rightarrow> bool" where
  "is_sink (CSVExport rows name mime) = True"
| "is_sink (JSONExport rows name mime) = True"
| "is_sink e = False"

fun is_fetch :: "effect \<Rightarrow> bool" where
  "is_fetch (Fetch d rn n) = True"
| "is_fetch e = False"

text \<open>
  The flags that the loops of createExport visit on an item, the detector name
  \<open>detector?.name\<close> of a flag, and the keys of the detector names found in a batch of items,
  in the order of their first occurrence.
\<close>

definition flags_of :: "jsval \<Rightarrow> jsval list" where
  "flags_of item = (case qcFlags_of item of Inl e \<Rightarrow> [] | Inr flags \<Rightarrow> flags)"

definition detector_name :: "jsval \<Rightarrow> jsval" where
  "detector_name flag = opt_prop (opt_prop flag ''detector'') ''name''"

definition categories :: "jsval list \<Rightarrow> string list" where
  "categories its =
     remdups (concat (map (\<lambda>flag.
        if truthy (detector_name flag)
        then (case toPropertyKey (detector_name flag) of Inl e \<Rightarrow> [] | Inr key \<Rightarrow> [key])
        else []) (concat (map flags_of its))))"

text \<open>
  The texts \<open><flagType.name or nothing> ( from: <from> to: <to> )\<close> of the flags of an item
  whose detector name has the given key, in the order of the flags.
\<close>

definition category_texts :: "string \<Rightarrow> jsval \<Rightarrow> string list" where
  "category_texts category item =
     concat (map (\<lambda>flag.
        if truthy (detector_name flag) \<and> toPropertyKey (detector_name flag) = Inr category
        then (case flag_text (opt_prop flag ''flagType'') (opt_prop flag ''from'')
                     (opt_prop flag ''to'') of
                Inl e \<Rightarrow> []
              | Inr rendered \<Rightarrow> [rendered])
        else []) (flags_of item))"

text \<open>
  The flags on which the loops of createExport do not throw: the flag is neither \<open>null\<close>
  nor \<open>undefined\<close>, and when its detector has a name, its text can be rendered and the
  name has a key, which is not the name of a member of \<open>Object.prototype\<close>. An item is
  exportable when it is neither \<open>null\<close> nor \<open>undefined\<close>, its \<open>qcFlags\<close> are missing or
  an array, and all its flags are of that kind.
\<close>

definition exportable_flag :: "jsval \<Rightarrow> bool" where
  "exportable_flag flag =
     (\<not> nullish flag
      \<and> (\<not> truthy (detector_name flag)
          \<or> (case flag_text (opt_prop flag ''flagType'') (opt_prop flag ''from'')
                     (opt_prop flag ''to'') of
                Inl e \<Rightarrow> False
              | Inr text \<Rightarrow>
                  (case toPropertyKey (detector_name flag) of
                     Inl e \<Rightarrow> False
                   | Inr key \<Rightarrow> key \<notin> set object_prototype_keys))))"

definition exportable_item :: "jsval \<Rightarrow> bool" where
  "exportable_item item =
     (case qcFlags_of item of Inl e \<Rightarrow> False | Inr flags \<Rightarrow> list_all exportable_flag flags)"

text \<open>
  The runs that the enrichment can look up: the item is neither \<open>null\<close> nor \<open>undefined\<close>
  and its run number has a key other than \<open>__proto__\<close>, as every number and every other
  string has. And the answers that the export can use: the request is rejected, or what the
  answer leaves to be stored is falsy or an array of flags on which the loops do not throw.
\<close>

definition run_with_key :: "jsval \<Rightarrow> bool" where
  "run_with_key item =
     (\<not> nullish item
      \<and> (case toPropertyKey (opt_prop item ''runNumber'') of
            Inl e \<Rightarrow> False
          | Inr key \<Rightarrow> key \<noteq> ''__proto__''))"

definition usable_flags :: "jsval \<Rightarrow> bool" where
  "usable_flags v =
     (case v of JArr flags \<Rightarrow> list_all exportable_flag flags | other \<Rightarrow> \<not> truthy other)"

definition usable_answer :: "response \<Rightarrow> bool" where
  "usable_answer r = usable_flags (fetched_items r)"

text \<open>The field keys of a record.\<close>

definition record_fields :: "jsval \<Rightarrow> string set" where
  "record_fields item = set (case item of JObj ps \<Rightarrow> map fst ps | _ \<Rightarrow> [])"

section \<open>Example data\<close>

text \<open>
  A run with one QC flag, as in the scenario
  \<open>{runNumber: 1, qcFlags: [{detector: {name: "TPC"}, flagType: {name: "BAD"}, from: 10, to: 20}]}\<close>.
\<close>

definition tpc_bad_flag :: jsval where
  "tpc_bad_flag =
     JObj [(''detector'', JObj [(''name'', JStr ''TPC'')]),
           (''flagType'', JObj [(''name'', JStr ''BAD'')]),
           (''from'', JNum 10), (''to'', JNum 20)]"

definition run_1 :: jsval where
  "run_1 = JObj [(''runNumber'', JNum 1), (''qcFlags'', JArr [tpc_bad_flag])]"

definition run_1_row :: jsobj where
  "run_1_row = [(''runNumber'', JNum 1), (''TPC'', JStr ''BAD ( from: 10 to: 20 )'')]"

text \<open>
  A batch of two runs: one with two TPC flags, the second without a flag type and with an
  open end, and one with an ITS flag and without the field \<open>fill\<close>.
\<close>

definition tpc_untyped_flag :: jsval where
  "tpc_untyped_flag =
     JObj [(''detector'', JObj [(''name'', JStr ''TPC'')]), (''from'', JNum 20), (''to'', JNull)]"

definition its_good_flag :: jsval where
  "its_good_flag =
     JObj [(''detector'', JObj [(''name'', JStr ''ITS'')]),
           (''flagType'', JObj [(''name'', JStr ''GOOD'')]),
           (''from'', JNum 1), (''to'', JNum 2)]"

definition run_2 :: jsval where
  "run_2 = JObj [(''runNumber'', JNum 2), (''fill'', JNum 7),
                 (''qcFlags'', JArr [tpc_bad_flag, tpc_untyped_flag])]"

definition run_3 :: jsval where
  "run_3 = JObj [(''runNumber'', JNum 3), (''qcFlags'', JArr [its_good_flag])]"

definition run_2_row :: jsobj where
  "run_2_row =
     [(''runNumber'', JNum 2), (''fill'', JNum 7),
      (''TPC'', JStr ''BAD ( from: 10 to: 20 )| ( from: 20 to: null )''), (''ITS'', JStr '''')]"

definition run_3_row :: jsobj where
  "run_3_row =
     [(''runNumber'', JNum 3), (''TPC'', JStr ''''), (''ITS'', JStr ''GOOD ( from: 1 to: 2 )'')]"

definition overview :: export_model where
  "overview =
     \<lparr>items = Success [run_2, run_3], selectedFields = [''runNumber'', ''fill'', ''lhcPeriod''],
      selectedExportType = JStr ''JSON''\<rparr>"

text \<open>
  A registry whose formatter of the run number shows the fill of the run beside it, where
  both can be printed.
\<close>

definition run_with_fill :: export_formats where
  "run_with_fill =
     [''runNumber'' \<mapsto>
        \<lparr>exportFormat = Some (\<lambda>v item.
           case (toString v, toString (opt_prop item ''fill'')) of
             (Inr run, Inr fill) \<Rightarrow> JStr (run @ ''/'' @ fill)
           | other \<Rightarrow> v)\<rparr>]"

definition run_2_fill_row :: jsobj where
  "run_2_fill_row =
     [(''runNumber'', JStr ''2/7''), (''fill'', JNum 7),
      (''TPC'', JStr ''BAD ( from: 10 to: 20 )| ( from: 20 to: null )''), (''ITS'', JStr '''')]"

definition run_3_fill_row :: jsobj where
  "run_3_fill_row =
     [(''runNumber'', JStr ''3/undefined''), (''TPC'', JStr ''''),
      (''ITS'', JStr ''GOOD ( from: 1 to: 2 )'')]"

text \<open>Runs without flags of their own, two of them with the same run number.\<close>

definition run_5 :: jsval where
  "run_5 = JObj [(''runNumber'', JNum 5)]"

definition run_6 :: jsval where
  "run_6 = JObj [(''runNumber'', JNum 6)]"

definition run_1_first :: jsval where
  "run_1_first = JObj [(''runNumber'', JNum 1), (''fill'', JNum 7)]"

definition run_1_again :: jsval where
  "run_1_again = JObj [(''runNumber'', JNum 1), (''fill'', JNum 8)]"

definition run_6_row :: jsobj where
  "run_6_row = [(''runNumber'', JNum 6), (''TPC'', JStr ''BAD ( from: 10 to: 20 )'')]"

text \<open>
  Runs with a flag of a detector that is named like a member of every object, as in
  \<open>{runNumber: 9, qcFlags: [{detector: {name: "constructor"}, flagType: {name: "BAD"}, from: 1, to: 2}]}\<close>.
\<close>

definition constructor_flag :: jsval where
  "constructor_flag =
     JObj [(''detector'', JObj [(''name'', JStr ''constructor'')]),
           (''flagType'', JObj [(''name'', JStr ''BAD'')]),
           (''from'', JNum 1), (''to'', JNum 2)]"

definition run_9 :: jsval where
  "run_9 = JObj [(''runNumber'', JNum 9), (''qcFlags'', JArr [constructor_flag])]"

definition valueOf_flag :: jsval where
  "valueOf_flag =
     JObj [(''detector'', JObj [(''name'', JStr ''valueOf'')]),
           (''flagType'', JObj [(''name'', JStr ''GOOD'')]),
           (''from'', JNum 3), (''to'', JNum 4)]"

definition run_8 :: jsval where
  "run_8 = JObj [(''runNumber'', JNum 8), (''qcFlags'', JArr [valueOf_flag])]"

text \<open>A run whose run number is an object with a property \<open>toString\<close> of its own.\<close>

definition run_unprintable :: jsval where
  "run_unprintable = JObj [(''runNumber'', JObj [(''toString'', JNum 5)])]"

text \<open>An endpoint whose first answer is a failure and whose later answers hold that flag.\<close>

definition flaky_remote :: remote where
  "flaky_remote n dpId runNumber =
     (if n = 0 then Rejects else Resolves (JObj [(''items'', JArr [tpc_bad_flag])]))"

section \<open>Properties of the export\<close>

text \<open>The scenario of the example data.\<close>

lemma run_1_rows: "format_items Map.empty [''runNumber''] [run_1] = Inr [run_1_row]"
  by code_simp

subsection \<open>Loops that can throw\<close>

lemma map_exn_Inr:
  "map_exn f xs = Inr ys \<Longrightarrow> list_all2 (\<lambda>x y. f x = Inr y) xs ys"
proof (induction xs arbitrary: ys)
  case Nil
  then show ?case by simp
next
  case (Cons x xs)
  from Cons.prems obtain y ys' where "f x = Inr y" and "map_exn f xs = Inr ys'" and "ys = y # ys'"
    by (auto split: sum.splits)
  with Cons.IH show ?case
    by simp
qed

lemma map_exn_succeeds:
  "(\<And>x. x \<in> set xs \<Longrightarrow> \<exists>y. f x = Inr y) \<Longrightarrow> \<exists>ys. map_exn f xs = Inr ys"
proof (induction xs)
  case Nil
  then show ?case by simp
next
  case (Cons x xs)
  then obtain y ys where "f x = Inr y" and "map_exn f xs = Inr ys"
    by (meson list.set_intros)
  then show ?case by simp
qed

lemma map_exn_fails:
  "map_exn f xs = Inl e \<Longrightarrow> \<exists>x \<in> set xs. f x = Inl e"
  by (induction xs) (auto split: sum.splits)

lemma map_exn_all:
  assumes "map_exn f xs = Inr ys" and "x \<in> set xs"
  shows "\<exists>y. f x = Inr y"
proof -
  from assms(2) obtain i where "i < length xs" and "xs ! i = x"
    by (auto simp: in_set_conv_nth)
  with map_exn_Inr [OF assms(1)] have "f x = Inr (ys ! i)"
    by (auto dest: list_all2_nthD)
  then show ?thesis ..
qed

subsection \<open>No data\<close>

text \<open>
  C1: when the current items are no success or an empty success, createExport of either
  model calls \<open>setError\<close>, if it was given, once with the failure "No data found" / "No
  items were found with the provided filters", notifies the observers and ends: nothing is
  requested and no CSV or JSON sink is called.
\<close>

theorem createExport_no_data:
  assumes "no_items (items m)" and "no_items (items r)"
  shows "createExport fileName exportFormats setError m =
           ((if setError
             then [SetError [\<lparr>title = ''No data found'',
                              detail = ''No items were found with the provided filters''\<rparr>]]
             else []) @ [Notify], Fulfilled)
       \<and> rdp_createExport getRemoteDataSlice fileName exportFormats setError r =
           ((if setError
             then [SetError [\<lparr>title = ''No data found'',
                              detail = ''No items were found with the provided filters''\<rparr>]]
             else []) @ [Notify], Fulfilled)"
proof -
  have "\<not> isSuccess (items m) \<or> payload (items m) = []"
    using assms(1) by (auto simp: no_items_def)
  moreover have "\<not> isSuccess (items r) \<or> payload (items r) = []"
    using assms(2) by (auto simp: no_items_def)
  ultimately show ?thesis
    by (auto simp: createExport_def rdp_createExport_def no_data_found_def Let_def)
qed

theorem createExport_no_data_witness:
  "no_items Loading \<and> no_items (Success [])
   \<and> createExport ''runs'' Map.empty True
     \<lparr>items = Loading, selectedFields = [''runNumber''], selectedExportType = JStr ''CSV''\<rparr> =
     ([SetError [\<lparr>title = ''No data found'',
                  detail = ''No items were found with the provided filters''\<rparr>], Notify], Fulfilled)
   \<and> rdp_createExport flaky_remote ''runs'' Map.empty True
     \<lparr>items = Success [], selectedFields = [''runNumber''], selectedExportType = JStr ''CSV'',
      dataPassId = JNum 7\<rparr> =
     ([SetError [\<lparr>title = ''No data found'',
                  detail = ''No items were found with the provided filters''\<rparr>], Notify], Fulfilled)"
proof -
  let ?m = "\<lparr>items = Loading, selectedFields = [''runNumber''], selectedExportType = JStr ''CSV''\<rparr>"
  let ?r = "\<lparr>items = Success [], selectedFields = [''runNumber''], selectedExportType = JStr ''CSV'',
      dataPassId = JNum 7\<rparr>"
  have none: "no_items (items ?m)" "no_items (items ?r)"
    by (simp_all add: no_items_def)
  from createExport_no_data
    [where fileName = "''runs''" and exportFormats = Map.empty and setError = True
      and getRemoteDataSlice = flaky_remote, OF none]
  show ?thesis
    using none by simp
qed

subsection \<open>The export type and the sink\<close>

lemma fetchQcFlags_effects:
  "fetchQcFlags g d n q rns = (effs, res) \<Longrightarrow> list_all is_fetch effs"
proof (induction rns arbitrary: n q effs res)
  case Nil
  then show ?case by simp
next
  case (Cons rn rns)
  show ?case
  proof (cases "toPropertyKey rn")
    case (Inl e)
    with Cons.prems show ?thesis by auto
  next
    case (Inr key)
    obtain effs' res' where rest:
      "fetchQcFlags g d (Suc n) (qc_set key (fetched_items (g n d rn)) q) rns = (effs', res')"
      by (cases "fetchQcFlags g d (Suc n) (qc_set key (fetched_items (g n d rn)) q) rns")
    with Cons.prems Inr have "effs = Fetch d rn 1000 # effs'"
      by simp
    moreover have "list_all is_fetch effs'"
      using Cons.IH rest by blast
    ultimately show ?thesis
      by simp
  qed
qed

lemma enrich_effects: "enrich g d its = (effs, res) \<Longrightarrow> list_all is_fetch effs"
  by (auto simp: enrich_def split: sum.splits prod.splits dest: fetchQcFlags_effects)

lemma is_fetch_not_sink: "list_all is_fetch effs \<Longrightarrow> list_all (\<lambda>e. \<not> is_sink e) effs"
  by (induction effs) (auto elim: is_fetch.elims)

lemma createExport_by_type:
  fixes m :: "'a export_model_scheme"
  shows "\<exists>pre c. list_all (\<lambda>e. \<not> is_sink e) pre \<and>
     ((createExport f ef se (m\<lparr>selectedExportType := JStr ''CSV''\<rparr>) = (pre, c)
        \<and> createExport f ef se (m\<lparr>selectedExportType := JStr ''JSON''\<rparr>) = (pre, c))
      \<or> (\<exists>rows.
           createExport f ef se (m\<lparr>selectedExportType := JStr ''CSV''\<rparr>)
             = (pre @ [CSVExport rows (f @ ''.csv'') ''text/csv;charset=utf-8;''], c)
         \<and> createExport f ef se (m\<lparr>selectedExportType := JStr ''JSON''\<rparr>)
             = (pre @ [JSONExport rows (f @ ''.json'') ''application/json''], c)))"
proof (cases "\<not> isSuccess (items m) \<or> length (payload (items m)) = 0")
  case True
  then show ?thesis
    by (auto simp: createExport_def Let_def)
next
  case False
  show ?thesis
  proof (cases "format_items ef (selectedFields m) (payload (items m))")
    case (Inl e)
    with False show ?thesis
      by (auto simp: createExport_def Let_def export_items_def getSelectedFields_def)
  next
    case (Inr rows)
    with False have
      "createExport f ef se (m\<lparr>selectedExportType := JStr ''CSV''\<rparr>)
         = ([] @ [CSVExport rows (f @ ''.csv'') ''text/csv;charset=utf-8;''], Fulfilled)"
      "createExport f ef se (m\<lparr>selectedExportType := JStr ''JSON''\<rparr>)
         = ([] @ [JSONExport rows (f @ ''.json'') ''application/json''], Fulfilled)"
      by (auto simp: createExport_def Let_def export_items_def getSelectedFields_def
          getSelectedExportType_def dispatch_def)
    then show ?thesis
      by (intro exI [of _ "[]"] exI [of _ Fulfilled]) auto
  qed
qed

lemma rdp_createExport_by_type:
  "\<exists>pre c. list_all (\<lambda>e. \<not> is_sink e) pre \<and>
     ((rdp_createExport g f ef se (r\<lparr>selectedExportType := JStr ''CSV''\<rparr>) = (pre, c)
        \<and> rdp_createExport g f ef se (r\<lparr>selectedExportType := JStr ''JSON''\<rparr>) = (pre, c))
      \<or> (\<exists>rows.
           rdp_createExport g f ef se (r\<lparr>selectedExportType := JStr ''CSV''\<rparr>)
             = (pre @ [CSVExport rows (f @ ''.csv'') ''text/csv;charset=utf-8;''], c)
         \<and> rdp_createExport g f ef se (r\<lparr>selectedExportType := JStr ''JSON''\<rparr>)
             = (pre @ [JSONExport rows (f @ ''.json'') ''application/json''], c)))"
proof (cases "truthy (dataPassId r) \<and> isSuccess (items r) \<and> payload (items r) \<noteq> []")
  case False
  then have "rdp_createExport g f ef se (r\<lparr>selectedExportType := t\<rparr>)
      = createExport f ef se (r\<lparr>selectedExportType := t\<rparr>)" for t
    by (auto simp: rdp_createExport_def createExport_def Let_def)
  then show ?thesis
    using createExport_by_type [of f ef se r] by simp
next
  case True
  obtain effs res where en: "enrich g (dataPassId r) (payload (items r)) = (effs, res)"
    by (cases "enrich g (dataPassId r) (payload (items r))")
  then have pre: "list_all (\<lambda>e. \<not> is_sink e) effs"
    by (intro is_fetch_not_sink) (rule enrich_effects)
  show ?thesis
  proof (cases res)
    case (Inl e)
    with True en have "rdp_createExport g f ef se (r\<lparr>selectedExportType := t\<rparr>)
      = (effs @ (if se then [SetError qc_flags_fetch_failed] else []), Fulfilled)" for t
      by (simp add: rdp_createExport_def Let_def)
    with pre show ?thesis
      by (intro exI [of _ "effs @ (if se then [SetError qc_flags_fetch_failed] else [])"]
          exI [of _ Fulfilled]) simp
  next
    case (Inr itemsWithFlags)
    show ?thesis
    proof (cases "format_items ef (selectedFields r) itemsWithFlags")
      case (Inl e)
      with True en Inr have "rdp_createExport g f ef se (r\<lparr>selectedExportType := t\<rparr>)
        = (effs, Rejected e)" for t
        by (simp add: rdp_createExport_def Let_def export_items_def getSelectedFields_def)
      with pre show ?thesis
        by (intro exI [of _ effs] exI [of _ "Rejected e"]) simp
    next
      case rows: (Inr rows)
      with True en Inr have
        "rdp_createExport g f ef se (r\<lparr>selectedExportType := JStr ''CSV''\<rparr>)
           = (effs @ [CSVExport rows (f @ ''.csv'') ''text/csv;charset=utf-8;''], Fulfilled)"
        "rdp_createExport g f ef se (r\<lparr>selectedExportType := JStr ''JSON''\<rparr>)
           = (effs @ [JSONExport rows (f @ ''.json'') ''application/json''], Fulfilled)"
        by (simp_all add: rdp_createExport_def Let_def export_items_def getSelectedFields_def
            getSelectedExportType_def dispatch_def)
      with pre show ?thesis
        by (intro exI [of _ effs] exI [of _ Fulfilled]) simp
    qed
  qed
qed

lemma rdp_createExport_falsy:
  "\<not> truthy (dataPassId r) \<Longrightarrow>
     rdp_createExport getRemoteDataSlice fileName exportFormats setError r =
     createExport fileName exportFormats setError r"
  by (simp add: rdp_createExport_def createExport_def Let_def export_items_def
      getSelectedFields_def getSelectedExportType_def)

lemma export_items_cong:
  "selectedFields m = selectedFields m' \<Longrightarrow> selectedExportType m = selectedExportType m' \<Longrightarrow>
   export_items fileName exportFormats m its = export_items fileName exportFormats m' its"
  by (simp add: export_items_def getSelectedFields_def getSelectedExportType_def split: sum.splits)

lemma createExport_cong:
  assumes "items m = items m'" and "selectedFields m = selectedFields m'"
    and "selectedExportType m = selectedExportType m'"
  shows "createExport fileName exportFormats setError m =
         createExport fileName exportFormats setError m'"
proof -
  have "export_items fileName exportFormats m its = export_items fileName exportFormats m' its"
    for its
    using assms(2,3) by (rule export_items_cong)
  with assms(1) show ?thesis
    by (simp add: createExport_def Let_def)
qed

lemma createExport_rows:
  "items m = Success its \<Longrightarrow> its \<noteq> [] \<Longrightarrow>
   format_items exportFormats (selectedFields m) its = Inr formatted \<Longrightarrow>
   createExport fileName exportFormats setError m =
     ([dispatch (selectedExportType m) fileName formatted], Fulfilled)"
  by (simp add: createExport_def Let_def export_items_def getSelectedFields_def
      getSelectedExportType_def)

text \<open>
  C10: setSelectedExportType stores whatever value it is given. When createExport then
  produces rows, it hands them to the CSV sink exactly when that value is the string
  \<open>CSV\<close>; under any other value (\<open>csv\<close>, \<open>XML\<close>, a number, ...) the rows go to
  the JSON sink as \<open><fileName>.json\<close> with MIME type \<open>application/json\<close>.
\<close>

theorem setSelectedExportType_selects_sink:
  assumes "items m = Success its" and "its \<noteq> []"
    and "format_items exportFormats (selectedFields m) its = Inr formatted"
  shows "snd (setSelectedExportType exportType m) = m\<lparr>selectedExportType := exportType\<rparr>
       \<and> createExport fileName exportFormats setError (snd (setSelectedExportType exportType m)) =
           ([if exportType = JStr ''CSV''
             then CSVExport formatted (fileName @ ''.csv'') ''text/csv;charset=utf-8;''
             else JSONExport formatted (fileName @ ''.json'') ''application/json''], Fulfilled)"
  using assms
  by (simp add: setSelectedExportType_def createExport_def Let_def export_items_def
      getSelectedFields_def getSelectedExportType_def dispatch_def)

theorem setSelectedExportType_selects_sink_witness:
  "format_items Map.empty [''runNumber''] [run_1] = Inr [run_1_row]
   \<and> createExport ''runs'' Map.empty True
       (snd (setSelectedExportType (JStr ''csv'')
          \<lparr>items = Success [run_1], selectedFields = [''runNumber''],
           selectedExportType = JStr ''CSV''\<rparr>))
     = ([JSONExport [run_1_row] ''runs.json'' ''application/json''], Fulfilled)
   \<and> createExport ''runs'' Map.empty True
       (snd (setSelectedExportType (JNum 3)
          \<lparr>items = Success [run_1], selectedFields = [''runNumber''],
           selectedExportType = JStr ''CSV''\<rparr>))
     = ([JSONExport [run_1_row] ''runs.json'' ''application/json''], Fulfilled)
   \<and> createExport ''runs'' Map.empty True
       (snd (setSelectedExportType (JStr ''CSV'')
          \<lparr>items = Success [run_1], selectedFields = [''runNumber''],
           selectedExportType = JStr ''JSON''\<rparr>))
     = ([CSVExport [run_1_row] ''runs.csv'' ''text/csv;charset=utf-8;''], Fulfilled)"
proof -
  let ?m = "\<lparr>items = Success [run_1], selectedFields = [''runNumber''],
           selectedExportType = JStr ''CSV''\<rparr>"
  let ?j = "\<lparr>items = Success [run_1], selectedFields = [''runNumber''],
           selectedExportType = JStr ''JSON''\<rparr>"
  have m: "items ?m = Success [run_1]" "[run_1] \<noteq> []"
    "format_items Map.empty (selectedFields ?m) [run_1] = Inr [run_1_row]"
    by (simp_all add: run_1_rows)
  have j: "items ?j = Success [run_1]" "[run_1] \<noteq> []"
    "format_items Map.empty (selectedFields ?j) [run_1] = Inr [run_1_row]"
    by (simp_all add: run_1_rows)
  note a = setSelectedExportType_selects_sink
      [where exportType = "JStr ''csv''" and fileName = "''runs''" and setError = True, OF m, THEN conjunct2]
  note b = setSelectedExportType_selects_sink
      [where exportType = "JNum 3" and fileName = "''runs''" and setError = True, OF m, THEN conjunct2]
  note c = setSelectedExportType_selects_sink
      [where exportType = "JStr ''CSV''" and fileName = "''runs''" and setError = True, OF j, THEN conjunct2]
  show ?thesis
    using a b c by (simp add: run_1_rows)
qed

subsection \<open>The data pass id\<close>

text \<open>
  C7: a RunsPerDataPassExportModel without a data pass id (the id is \<open>undefined\<close> or
  \<open>null\<close>) exports exactly as an OverviewExportModel with the same items, selected
  fields and export type does, for every formatter registry and whatever the endpoint
  would answer: the same effects in the same order, and the same completion.
\<close>

theorem rdp_createExport_without_dataPassId:
  assumes "nullish (dataPassId r)"
    and "items m = items r" and "selectedFields m = selectedFields r"
    and "selectedExportType m = selectedExportType r"
  shows "rdp_createExport getRemoteDataSlice fileName exportFormats setError r =
         createExport fileName exportFormats setError m"
proof -
  have "\<not> truthy (dataPassId r)"
    using assms(1) by (cases "dataPassId r") simp_all
  then have "rdp_createExport getRemoteDataSlice fileName exportFormats setError r =
      createExport fileName exportFormats setError r"
    by (rule rdp_createExport_falsy)
  also have "\<dots> = createExport fileName exportFormats setError m"
    using assms(2-4) by (intro createExport_cong) simp_all
  finally show ?thesis .
qed

theorem rdp_createExport_without_dataPassId_witness:
  "nullish JUndefined
   \<and> rdp_createExport flaky_remote ''runs'' Map.empty True
       \<lparr>items = Success [run_1], selectedFields = [''runNumber''],
        selectedExportType = JStr ''CSV'', dataPassId = JUndefined\<rparr>
     = createExport ''runs'' Map.empty True
       \<lparr>items = Success [run_1], selectedFields = [''runNumber''],
        selectedExportType = JStr ''CSV''\<rparr>
   \<and> createExport ''runs'' Map.empty True
       \<lparr>items = Success [run_1], selectedFields = [''runNumber''],
        selectedExportType = JStr ''CSV''\<rparr>
     = ([CSVExport [run_1_row] ''runs.csv'' ''text/csv;charset=utf-8;''], Fulfilled)"
proof (intro conjI)
  show "nullish JUndefined" by simp
  show "rdp_createExport flaky_remote ''runs'' Map.empty True
       \<lparr>items = Success [run_1], selectedFields = [''runNumber''],
        selectedExportType = JStr ''CSV'', dataPassId = JUndefined\<rparr>
     = createExport ''runs'' Map.empty True
       \<lparr>items = Success [run_1], selectedFields = [''runNumber''],
        selectedExportType = JStr ''CSV''\<rparr>"
    by (rule rdp_createExport_without_dataPassId) simp_all
  show "createExport ''runs'' Map.empty True
       \<lparr>items = Success [run_1], selectedFields = [''runNumber''],
        selectedExportType = JStr ''CSV''\<rparr>
     = ([CSVExport [run_1_row] ''runs.csv'' ''text/csv;charset=utf-8;''], Fulfilled)"
    by (simp add: createExport_rows [where its = "[run_1]" and formatted = "[run_1_row]"]
        run_1_rows dispatch_def)
qed

text \<open>
  C9: after setDataPassId with any falsy id, such as the number \<open>0\<close>, \<open>null\<close> or
  \<open>undefined\<close>, createExport on a non-empty success skips the enrichment: it makes no
  request, and its rows are those of the items as they are, with the flags they already
  carry.
\<close>

theorem falsy_dataPassId_skips_enrichment:
  assumes "\<not> truthy newId" and "items r = Success its" and "its \<noteq> []"
  shows "rdp_createExport getRemoteDataSlice fileName exportFormats setError (setDataPassId newId r) =
           (case format_items exportFormats (selectedFields r) its of
              Inl e \<Rightarrow> ([], Rejected e)
            | Inr formatted \<Rightarrow>
                ([if selectedExportType r = JStr ''CSV''
                  then CSVExport formatted (fileName @ ''.csv'') ''text/csv;charset=utf-8;''
                  else JSONExport formatted (fileName @ ''.json'') ''application/json''], Fulfilled))
       \<and> \<not> list_ex is_fetch
             (fst (rdp_createExport getRemoteDataSlice fileName exportFormats setError
                (setDataPassId newId r)))
       \<and> \<not> truthy (JNum 0) \<and> \<not> truthy JNull \<and> \<not> truthy JUndefined"
proof -
  have "rdp_createExport getRemoteDataSlice fileName exportFormats setError (setDataPassId newId r) =
      createExport fileName exportFormats setError (setDataPassId newId r)"
    using assms(1) by (intro rdp_createExport_falsy) (simp add: setDataPassId_def)
  also have "\<dots> = export_items fileName exportFormats (setDataPassId newId r) its"
    using assms(2,3) by (simp add: createExport_def setDataPassId_def Let_def)
  also have "\<dots> = export_items fileName exportFormats r its"
    by (rule export_items_cong) (simp_all add: setDataPassId_def)
  finally show ?thesis
    by (auto simp: export_items_def getSelectedFields_def getSelectedExportType_def dispatch_def
        split: sum.splits)
qed

theorem falsy_dataPassId_skips_enrichment_witness:
  "\<not> truthy (JNum 0)
   \<and> rdp_createExport flaky_remote ''runs'' Map.empty True
       (setDataPassId (JNum 0)
          \<lparr>items = Success [run_1], selectedFields = [''runNumber''],
           selectedExportType = JStr ''JSON'', dataPassId = JNum 12\<rparr>)
     = ([JSONExport [run_1_row] ''runs.json'' ''application/json''], Fulfilled)"
proof -
  let ?r = "\<lparr>items = Success [run_1], selectedFields = [''runNumber''],
           selectedExportType = JStr ''JSON'', dataPassId = JNum 12\<rparr>"
  have "\<not> truthy (JNum 0)" and "items ?r = Success [run_1]" and "[run_1] \<noteq> []"
    by simp_all
  from falsy_dataPassId_skips_enrichment
      [where getRemoteDataSlice = flaky_remote and fileName = "''runs''"
        and exportFormats = Map.empty and setError = True, OF this, THEN conjunct1]
  show ?thesis
    by (simp add: run_1_rows)
qed

subsection \<open>A throw in the enrichment\<close>

lemma runNumbers_read:
  "map_exn (\<lambda>item. get_prop item k) its = Inr rns \<Longrightarrow> rns = map (\<lambda>item. opt_prop item k) its"
  by (induction its arbitrary: rns) (auto simp: get_prop_def split: sum.splits if_splits)

lemma runNumbers_read_iff:
  "(\<exists>rns. map_exn (\<lambda>item. get_prop item k) its = Inr rns) \<longleftrightarrow> (\<forall>item \<in> set its. \<not> nullish item)"
proof
  assume "\<exists>rns. map_exn (\<lambda>item. get_prop item k) its = Inr rns"
  then obtain rns where rns: "map_exn (\<lambda>item. get_prop item k) its = Inr rns" ..
  show "\<forall>item \<in> set its. \<not> nullish item"
  proof
    fix item assume "item \<in> set its"
    with rns have "\<exists>v. get_prop item k = Inr v"
      by (rule map_exn_all)
    then show "\<not> nullish item"
      by (auto simp: get_prop_def split: if_splits)
  qed
next
  assume "\<forall>item \<in> set its. \<not> nullish item"
  then show "\<exists>rns. map_exn (\<lambda>item. get_prop item k) its = Inr rns"
    by (intro map_exn_succeeds) (simp add: get_prop_def)
qed

text \<open>\<open>_fetchQcFlags\<close> throws exactly when a run number has no key.\<close>

lemma fetchQcFlags_throws_iff:
  "(\<exists>e. snd (fetchQcFlags g d n q rns) = Inl e) \<longleftrightarrow> (\<exists>rn \<in> set rns. \<exists>e. toPropertyKey rn = Inl e)"
proof (induction rns arbitrary: n q)
  case Nil
  then show ?case by simp
next
  case (Cons rn rns)
  show ?case
  proof (cases "toPropertyKey rn")
    case (Inl e)
    then show ?thesis by auto
  next
    case (Inr key)
    have "snd (fetchQcFlags g d n q (rn # rns)) =
        snd (fetchQcFlags g d (Suc n) (qc_set key (fetched_items (g n d rn)) q) rns)"
      by (simp add: Inr split: prod.splits)
    with Cons.IH [of "Suc n" "qc_set key (fetched_items (g n d rn)) q"] Inr show ?thesis
      by simp
  qed
qed

lemma with_flags_throws_iff:
  "(\<exists>e. with_flags q item = Inl e) \<longleftrightarrow>
     nullish item \<or> (\<exists>e. toPropertyKey (opt_prop item ''runNumber'') = Inl e)"
  by (auto simp: with_flags_def get_prop_def Let_def split: sum.splits)

text \<open>
  The body of the \<open>try\<close> throws exactly when an item is \<open>null\<close> or \<open>undefined\<close> or a
  run number has no key.
\<close>

lemma enrich_throws_iff:
  "(\<exists>e. snd (enrich g d its) = Inl e) \<longleftrightarrow>
     (\<exists>item \<in> set its. nullish item \<or> (\<exists>e. toPropertyKey (opt_prop item ''runNumber'') = Inl e))"
proof (cases "\<forall>item \<in> set its. \<not> nullish item")
  case False
  then have "map_exn (\<lambda>item. get_prop item ''runNumber'') its \<noteq> Inr rns" for rns
    using runNumbers_read_iff [of "''runNumber''" its] by blast
  then obtain e where "map_exn (\<lambda>item. get_prop item ''runNumber'') its = Inl e"
    by (cases "map_exn (\<lambda>item. get_prop item ''runNumber'') its") auto
  then have "snd (enrich g d its) = Inl e"
    by (simp add: enrich_def)
  with False show ?thesis
    by blast
next
  case True
  then obtain rns where rns: "map_exn (\<lambda>item. get_prop item ''runNumber'') its = Inr rns"
    using runNumbers_read_iff [of "''runNumber''" its] by blast
  then have read: "rns = map (\<lambda>item. opt_prop item ''runNumber'') its"
    by (rule runNumbers_read)
  obtain effs res where fetch: "fetchQcFlags g d 0 empty_qcmap rns = (effs, res)"
    by (cases "fetchQcFlags g d 0 empty_qcmap rns")
  show ?thesis
  proof (cases res)
    case (Inl e)
    with fetch have "\<exists>rn \<in> set rns. \<exists>e. toPropertyKey rn = Inl e"
      using fetchQcFlags_throws_iff [of g d 0 empty_qcmap rns] by auto
    moreover have "snd (enrich g d its) = Inl e"
      using rns fetch Inl by (simp add: enrich_def)
    ultimately show ?thesis
      using read by auto
  next
    case (Inr q)
    with fetch have keys: "\<forall>rn \<in> set rns. \<forall>e. toPropertyKey rn \<noteq> Inl e"
      using fetchQcFlags_throws_iff [of g d 0 empty_qcmap rns] by auto
    have "with_flags q item \<noteq> Inl e" if "item \<in> set its" for item e
      using that True keys read with_flags_throws_iff [of q item] by auto
    then have "map_exn (with_flags q) its \<noteq> Inl e" for e
      by (auto dest: map_exn_fails)
    moreover have "snd (enrich g d its) = map_exn (with_flags q) its"
      using rns fetch Inr by (simp add: enrich_def)
    ultimately show ?thesis
      using True keys read by auto
  qed
qed

text \<open>
  C6: with a truthy data pass id and a non-empty success, when the body of the \<open>try\<close>
  in createExport throws, after the requests it has made so far, the call reports the
  failure "QC flags fetch failed" / "Unable to fetch QC flags for export" through
  \<open>setError\<close>, if it was given, and ends there, fulfilled: besides those requests it does
  nothing else, and it calls no sink.
\<close>

theorem enrichment_throw_aborts:
  assumes "items r = Success its" and "its \<noteq> []" and "truthy (dataPassId r)"
    and "enrich getRemoteDataSlice (dataPassId r) its = (requests, Inl e)"
  shows "rdp_createExport getRemoteDataSlice fileName exportFormats setError r =
           (requests @
            (if setError
             then [SetError [\<lparr>title = ''QC flags fetch failed'',
                              detail = ''Unable to fetch QC flags for export''\<rparr>]]
             else []), Fulfilled)
       \<and> list_all is_fetch requests
       \<and> \<not> list_ex is_sink
             (fst (rdp_createExport getRemoteDataSlice fileName exportFormats setError r))"
proof -
  have run: "rdp_createExport getRemoteDataSlice fileName exportFormats setError r =
      (requests @ (if setError then [SetError qc_flags_fetch_failed] else []), Fulfilled)"
    using assms by (simp add: rdp_createExport_def Let_def)
  have fetches: "list_all is_fetch requests"
    using assms(4) by (rule enrich_effects)
  then have "list_all (\<lambda>e. \<not> is_sink e) requests"
    by (rule is_fetch_not_sink)
  then have "\<not> list_ex is_sink requests"
    by (simp add: list_all_iff list_ex_iff)
  with run fetches show ?thesis
    by (simp add: qc_flags_fetch_failed_def list_ex_iff)
qed

theorem enrichment_throw_aborts_witness:
  "enrich flaky_remote (JNum 5) [JNull] = ([], Inl TypeError)
   \<and> rdp_createExport flaky_remote ''runs'' Map.empty True
       \<lparr>items = Success [JNull], selectedFields = [], selectedExportType = JStr ''JSON'',
        dataPassId = JNum 5\<rparr>
     = ([SetError [\<lparr>title = ''QC flags fetch failed'',
                    detail = ''Unable to fetch QC flags for export''\<rparr>]], Fulfilled)
   \<and> enrich flaky_remote (JNum 7) [run_unprintable, run_5]
     = ([Fetch (JNum 7) (JObj [(''toString'', JNum 5)]) 1000], Inl TypeError)
   \<and> rdp_createExport flaky_remote ''runs'' Map.empty True
       \<lparr>items = Success [run_unprintable, run_5], selectedFields = [''runNumber''],
        selectedExportType = JStr ''CSV'', dataPassId = JNum 7\<rparr>
     = ([Fetch (JNum 7) (JObj [(''toString'', JNum 5)]) 1000,
         SetError [\<lparr>title = ''QC flags fetch failed'',
                    detail = ''Unable to fetch QC flags for export''\<rparr>]], Fulfilled)"
proof -
  let ?r = "\<lparr>items = Success [JNull], selectedFields = [], selectedExportType = JStr ''JSON'',
        dataPassId = JNum 5\<rparr>"
  let ?u = "\<lparr>items = Success [run_unprintable, run_5], selectedFields = [''runNumber''],
        selectedExportType = JStr ''CSV'', dataPassId = JNum 7\<rparr>"
  have null: "enrich flaky_remote (JNum 5) [JNull] = ([], Inl TypeError)"
    by (simp add: enrich_def get_prop_def)
  have key: "enrich flaky_remote (JNum 7) [run_unprintable, run_5]
      = ([Fetch (JNum 7) (JObj [(''toString'', JNum 5)]) 1000], Inl TypeError)"
    by (simp add: enrich_def get_prop_def run_unprintable_def run_5_def toPropertyKey_def)
  have r: "items ?r = Success [JNull]" "[JNull] \<noteq> []" "truthy (dataPassId ?r)"
    "enrich flaky_remote (dataPassId ?r) [JNull] = ([], Inl TypeError)"
    using null by simp_all
  have u: "items ?u = Success [run_unprintable, run_5]" "[run_unprintable, run_5] \<noteq> []"
    "truthy (dataPassId ?u)"
    "enrich flaky_remote (dataPassId ?u) [run_unprintable, run_5]
      = ([Fetch (JNum 7) (JObj [(''toString'', JNum 5)]) 1000], Inl TypeError)"
    using key by simp_all
  note a = enrichment_throw_aborts
      [where fileName = "''runs''" and exportFormats = Map.empty and setError = True,
        OF r, THEN conjunct1]
  note b = enrichment_throw_aborts
      [where fileName = "''runs''" and exportFormats = Map.empty and setError = True,
        OF u, THEN conjunct1]
  from a b null key show ?thesis
    by simp
qed

subsection \<open>Objects and the projection on the selected fields\<close>

lemma map_of_obj_set: "map_of (obj_set k v ps) = (map_of ps)(k \<mapsto> v)"
  by (induction ps) auto

lemma keys_obj_set: "fst ` set (obj_set k v ps) = insert k (fst ` set ps)"
  by (induction ps) auto

lemma distinct_obj_set: "distinct (map fst ps) \<Longrightarrow> distinct (map fst (obj_set k v ps))"
  by (induction ps) (auto simp: keys_obj_set)

lemma foldl_obj_set_lookup:
  "map_of (foldl (\<lambda>obj (k, v). obj_set k v obj) acc es) k =
     (case map_of (rev es) k of Some v \<Rightarrow> Some v | None \<Rightarrow> map_of acc k)"
proof (induction es arbitrary: acc)
  case Nil
  then show ?case by simp
next
  case (Cons e es)
  obtain k' v' where e: "e = (k', v')" by (cases e)
  show ?case
    by (simp add: Cons.IH e map_of_obj_set map_add_def split: option.splits)
qed

lemma foldl_obj_set_keys:
  "fst ` set (foldl (\<lambda>obj (k, v). obj_set k v obj) acc es) = fst ` set acc \<union> fst ` set es"
proof (induction es arbitrary: acc)
  case Nil
  then show ?case by simp
next
  case (Cons e es)
  obtain k v where e: "e = (k, v)" by (cases e)
  have "fst ` set (foldl (\<lambda>obj (k, v). obj_set k v obj) (obj_set k v acc) es)
      = insert k (fst ` set acc) \<union> fst ` set es"
    by (simp add: Cons.IH keys_obj_set)
  then show ?case
    by (simp add: e)
qed

lemma foldl_obj_set_distinct:
  "distinct (map fst acc) \<Longrightarrow> distinct (map fst (foldl (\<lambda>obj (k, v). obj_set k v obj) acc es))"
  by (induction es arbitrary: acc) (auto simp: distinct_obj_set split: prod.splits)

lemma map_of_fromEntries: "map_of (fromEntries es) k = map_of (rev es) k"
  by (simp add: fromEntries_def foldl_obj_set_lookup split: option.splits)

lemma keys_fromEntries: "fst ` set (fromEntries es) = fst ` set es"
  by (simp add: fromEntries_def foldl_obj_set_keys)

lemma distinct_fromEntries: "distinct (map fst (fromEntries es))"
  by (simp add: fromEntries_def foldl_obj_set_distinct)

lemma set_entries: "set (entries ps) = set ps"
  by (auto simp: entries_def)

lemma distinct_entries:
  assumes "distinct (map fst ps)"
  shows "distinct (map fst (entries ps))"
proof -
  have "distinct ps" and inj: "inj_on fst (set ps)"
    using assms by (simp_all add: distinct_map)
  then have "distinct (entries ps)"
    by (auto simp: entries_def)
  with inj show ?thesis
    by (simp add: distinct_map set_entries)
qed

lemma map_of_entries:
  assumes "distinct (map fst ps)"
  shows "map_of (entries ps) = map_of ps"
  using assms distinct_entries [OF assms]
  by (intro map_of_inject_set [THEN iffD2]) (simp_all add: set_entries)

text \<open>A list of pairs whose values are a function of their keys.\<close>

lemma map_of_functional:
  assumes "\<And>k v. (k, v) \<in> set es \<Longrightarrow> f k = Some v"
  shows "map_of es k = (if k \<in> fst ` set es then f k else None)"
  using assms
proof (induction es)
  case Nil
  then show ?case by simp
next
  case (Cons e es)
  obtain k' v' where e: "e = (k', v')" by (cases e)
  have "f k' = Some v'"
    using Cons.prems [of k' v'] by (simp add: e)
  moreover have "map_of es k = (if k \<in> fst ` set es then f k else None)"
    using Cons.prems by (intro Cons.IH) simp
  ultimately show ?case
    by (simp add: e)
qed

lemma map_of_pick:
  "map_of (pick item keys) k = (if k \<in> set keys then own_property item k else None)"
proof -
  let ?es = "map (\<lambda>k. (k, the (own_property item k)))
               (filter (\<lambda>k. own_property item k \<noteq> None) keys)"
  have fn: "own_property item k' = Some v" if "(k', v) \<in> set (rev ?es)" for k' v
    using that by auto
  have keys: "fst ` set (rev ?es) = {k \<in> set keys. own_property item k \<noteq> None}"
    by (auto simp: image_iff)
  show ?thesis
    unfolding pick_def map_of_fromEntries
    using map_of_functional [of "rev ?es" "own_property item" k, OF fn] keys
    by auto
qed

lemma keys_pick: "fst ` set (pick item keys) = {k \<in> set keys. own_property item k \<noteq> None}"
  by (auto simp: pick_def keys_fromEntries image_iff)

lemma distinct_pick: "distinct (map fst (pick item keys))"
  by (simp add: pick_def distinct_fromEntries)

lemma keys_mapped_entries:
  "fst ` set (mapped_entries ef sel item) = {k \<in> set sel. own_property item k \<noteq> None}"
proof -
  have "fst ` set (mapped_entries ef sel item) = fst ` set (entries (pick item sel))"
    by (force simp: mapped_entries_def image_iff)
  then show ?thesis
    by (simp add: set_entries keys_pick)
qed

lemma map_fst_mapped_entries:
  "map fst (mapped_entries ef sel item) = map fst (entries (pick item sel))"
  by (simp add: mapped_entries_def case_prod_beta comp_def)

lemma distinct_mapped_entries: "distinct (map fst (mapped_entries ef sel item))"
  by (simp add: map_fst_mapped_entries distinct_entries distinct_pick)

lemma map_of_map_keyed:
  "map_of (map (\<lambda>(k, v). (k, g k v)) ps) k = map_option (g k) (map_of ps k)"
  by (induction ps) auto

lemma map_of_mapped_entries:
  "map_of (mapped_entries ef sel item) k =
     (if k \<in> set sel then map_option (\<lambda>v. formatter_for ef k v item) (own_property item k)
      else None)"
  by (simp add: mapped_entries_def map_of_map_keyed map_of_entries distinct_pick map_of_pick)


subsection \<open>The detector columns\<close>

lemma record_fields_own: "k \<in> record_fields item \<longleftrightarrow> own_property item k \<noteq> None"
  by (cases item) (auto simp: record_fields_def dom_map_of_conv_image_fst [symmetric])

lemma add_detectors_set:
  "add_detectors dets flags = Inr dets' \<Longrightarrow>
   set dets' = set dets \<union> {detector_name f | f. f \<in> set flags \<and> truthy (detector_name f)}"
proof (induction flags arbitrary: dets)
  case Nil
  then show ?case by simp
next
  case (Cons flag flags)
  from Cons.prems have ok: "\<not> nullish flag"
    by (auto simp: get_prop_def split: if_splits)
  let ?dets = "if truthy (detector_name flag) then set_add (detector_name flag) dets else dets"
  from Cons.prems ok have "add_detectors ?dets flags = Inr dets'"
    by (simp add: get_prop_def detector_name_def split: if_splits)
  then have "set dets' = set ?dets \<union> {detector_name f | f. f \<in> set flags \<and> truthy (detector_name f)}"
    by (rule Cons.IH)
  then show ?case
    by (auto simp: set_add_def)
qed

lemma scan_detectors_set:
  "scan_detectors dets its = Inr dets' \<Longrightarrow>
   set dets' = set dets \<union>
     {detector_name f | f. f \<in> set (concat (map flags_of its)) \<and> truthy (detector_name f)}"
proof (induction its arbitrary: dets)
  case Nil
  then show ?case by simp
next
  case (Cons item its)
  from Cons.prems obtain flags dets1 where
    flags: "qcFlags_of item = Inr flags" and
    dets1: "add_detectors dets flags = Inr dets1" and
    rest: "scan_detectors dets1 its = Inr dets'"
    by (auto split: sum.splits)
  have "flags_of item = flags"
    by (simp add: flags_of_def flags)
  with add_detectors_set [OF dets1] Cons.IH [OF rest] show ?case
    by auto
qed

lemma keys_of_all:
  "list_all2 (\<lambda>d k. f d = Inr k) dets keys \<Longrightarrow> set keys = {k. \<exists>d \<in> set dets. f d = Inr k}"
  by (induction rule: list_all2_induct) auto

lemma set_categories:
  "set (categories its) =
     {k. \<exists>f \<in> set (concat (map flags_of its)).
           truthy (detector_name f) \<and> toPropertyKey (detector_name f) = Inr k}"
proof -
  have "set (case toPropertyKey v of Inl e \<Rightarrow> [] | Inr key \<Rightarrow> [key]) = {k. toPropertyKey v = Inr k}"
    for v
    by (cases "toPropertyKey v") auto
  then show ?thesis
    by (auto simp: categories_def)
qed

text \<open>The keys of the detectors that the first loop finds are the categories of the batch.\<close>

lemma scan_detectors_categories:
  assumes "scan_detectors [] its = Inr dets"
    and "list_all2 (\<lambda>d k. toPropertyKey d = Inr k) dets keys"
  shows "set keys = set (categories its)"
proof -
  define F where "F = set (concat (map flags_of its))"
  have dets: "set dets = {detector_name f | f. f \<in> F \<and> truthy (detector_name f)}"
    using scan_detectors_set [OF assms(1)] by (simp add: F_def)
  have "set keys = {k. \<exists>d \<in> set dets. toPropertyKey d = Inr k}"
    using assms(2) by (rule keys_of_all)
  also have "\<dots> = {k. \<exists>f \<in> F. truthy (detector_name f) \<and> toPropertyKey (detector_name f) = Inr k}"
    unfolding dets by blast
  also have "\<dots> = set (categories its)"
    unfolding F_def by (rule set_categories [symmetric])
  finally show ?thesis .
qed

lemma detector_columns:
  assumes "map_exn (detector_column g) dets = Inr cols"
  shows "\<exists>keys. list_all2 (\<lambda>d k. toPropertyKey d = Inr k) dets keys
           \<and> cols = map (\<lambda>k. (k, JStr (join ''|'' (case g k of Some texts \<Rightarrow> texts | None \<Rightarrow> [])))) keys"
  using assms
proof (induction dets arbitrary: cols)
  case Nil
  then show ?case by simp
next
  case (Cons d dets)
  from Cons.prems obtain c cols' where c: "detector_column g d = Inr c"
    and rest: "map_exn (detector_column g) dets = Inr cols'" and cols: "cols = c # cols'"
    by (auto split: sum.splits)
  from c obtain k where k: "toPropertyKey d = Inr k"
    and c': "c = (k, JStr (join ''|'' (case g k of Some texts \<Rightarrow> texts | None \<Rightarrow> [])))"
    by (auto simp: detector_column_def member_of_def
        split: sum.splits member.splits option.splits if_splits)
  from Cons.IH [OF rest] obtain keys where
    "list_all2 (\<lambda>d k. toPropertyKey d = Inr k) dets keys"
    "cols' = map (\<lambda>k. (k, JStr (join ''|'' (case g k of Some texts \<Rightarrow> texts | None \<Rightarrow> [])))) keys"
    by blast
  with k c' cols show ?case
    by (intro exI [of _ "k # keys"]) simp
qed

text \<open>The row of an item: the formatted projection, then one column per detector.\<close>

lemma format_item_row:
  assumes "format_item ef sel dets item = Inr row"
  shows "\<exists>keys g. list_all2 (\<lambda>d k. toPropertyKey d = Inr k) dets keys
      \<and> collect_flags Map.empty (flags_of item) = Inr g
      \<and> fst ` set row = {k \<in> set sel. own_property item k \<noteq> None} \<union> set keys
      \<and> (\<forall>k \<in> set keys.
            map_of row k = Some (JStr (join ''|'' (case g k of Some texts \<Rightarrow> texts | None \<Rightarrow> []))))
      \<and> (\<forall>k. k \<notin> set keys \<longrightarrow> map_of row k = map_of (mapped_entries ef sel item) k)"
proof -
  from assms obtain flags g cols where
    flags: "qcFlags_of item = Inr flags" and
    g: "collect_flags Map.empty flags = Inr g" and
    cols: "map_exn (detector_column g) dets = Inr cols" and
    row: "row = fromEntries (mapped_entries ef sel item @ cols)"
    by (auto simp: format_item_def split: sum.splits)
  have flags_of: "flags_of item = flags"
    by (simp add: flags_of_def flags)
  from detector_columns [OF cols] obtain keys where
    keys: "list_all2 (\<lambda>d k. toPropertyKey d = Inr k) dets keys" and
    cols': "cols = map (\<lambda>k. (k, JStr (join ''|'' (case g k of Some texts \<Rightarrow> texts | None \<Rightarrow> [])))) keys"
    by blast
  have fst_cols: "fst ` set cols = set keys"
    by (auto simp: cols' image_iff)
  have a: "fst ` set row = {k \<in> set sel. own_property item k \<noteq> None} \<union> set keys"
    by (simp add: row keys_fromEntries image_Un keys_mapped_entries fst_cols)
  have lookup: "map_of row k =
      (case map_of (rev cols) k of Some v \<Rightarrow> Some v
       | None \<Rightarrow> map_of (rev (mapped_entries ef sel item)) k)" for k
    by (simp add: row map_of_fromEntries map_add_def)
  have fn: "map_of (rev cols) k =
      (if k \<in> fst ` set (rev cols)
       then Some (JStr (join ''|'' (case g k of Some texts \<Rightarrow> texts | None \<Rightarrow> []))) else None)" for k
    by (rule map_of_functional) (auto simp: cols')
  have b: "\<forall>k \<in> set keys.
      map_of row k = Some (JStr (join ''|'' (case g k of Some texts \<Rightarrow> texts | None \<Rightarrow> [])))"
    by (simp add: lookup fn fst_cols)
  have "map_of (rev (mapped_entries ef sel item)) = map_of (mapped_entries ef sel item)"
    by (intro map_of_inject_set [THEN iffD2])
      (simp_all add: rev_map [symmetric] distinct_mapped_entries)
  then have c: "\<forall>k. k \<notin> set keys \<longrightarrow> map_of row k = map_of (mapped_entries ef sel item) k"
    by (simp add: lookup fn fst_cols)
  from keys g flags_of a b c show ?thesis
    by blast
qed

lemma format_items_rows:
  assumes "format_items ef sel its = Inr rows"
  shows "\<exists>dets. scan_detectors [] its = Inr dets
           \<and> list_all2 (\<lambda>item row. format_item ef sel dets item = Inr row) its rows"
proof -
  from assms obtain dets where dets: "scan_detectors [] its = Inr dets"
    and rows: "map_exn (format_item ef sel dets) its = Inr rows"
    by (auto simp: format_items_def split: sum.splits)
  from dets map_exn_Inr [OF rows] show ?thesis
    by blast
qed

text \<open>
  The row of the \<open>i\<close>-th item, when the rows are produced: its keys, its columns of the
  categories of the batch, and its other columns.
\<close>

lemma format_items_row:
  assumes "format_items ef sel its = Inr rows" and "i < length its"
  shows "length rows = length its"
    and "\<exists>g. collect_flags Map.empty (flags_of (its ! i)) = Inr g
          \<and> fst ` set (rows ! i) =
              {k \<in> set sel. own_property (its ! i) k \<noteq> None} \<union> set (categories its)
          \<and> (\<forall>k \<in> set (categories its).
                map_of (rows ! i) k =
                  Some (JStr (join ''|'' (case g k of Some texts \<Rightarrow> texts | None \<Rightarrow> []))))
          \<and> (\<forall>k. k \<notin> set (categories its) \<longrightarrow>
                map_of (rows ! i) k = map_of (mapped_entries ef sel (its ! i)) k)"
proof -
  from format_items_rows [OF assms(1)] obtain dets where
    dets: "scan_detectors [] its = Inr dets" and
    all: "list_all2 (\<lambda>item row. format_item ef sel dets item = Inr row) its rows"
    by blast
  show "length rows = length its"
    using all by (simp add: list_all2_lengthD)
  have "format_item ef sel dets (its ! i) = Inr (rows ! i)"
    using all assms(2) by (rule list_all2_nthD)
  from format_item_row [OF this] obtain keys g where
    keys: "list_all2 (\<lambda>d k. toPropertyKey d = Inr k) dets keys" and
    rest: "collect_flags Map.empty (flags_of (its ! i)) = Inr g"
      "fst ` set (rows ! i) = {k \<in> set sel. own_property (its ! i) k \<noteq> None} \<union> set keys"
      "\<forall>k \<in> set keys.
          map_of (rows ! i) k = Some (JStr (join ''|'' (case g k of Some texts \<Rightarrow> texts | None \<Rightarrow> [])))"
      "\<forall>k. k \<notin> set keys \<longrightarrow> map_of (rows ! i) k = map_of (mapped_entries ef sel (its ! i)) k"
    by blast
  have "set keys = set (categories its)"
    using dets keys by (rule scan_detectors_categories)
  with rest show "\<exists>g. collect_flags Map.empty (flags_of (its ! i)) = Inr g
          \<and> fst ` set (rows ! i) =
              {k \<in> set sel. own_property (its ! i) k \<noteq> None} \<union> set (categories its)
          \<and> (\<forall>k \<in> set (categories its).
                map_of (rows ! i) k =
                  Some (JStr (join ''|'' (case g k of Some texts \<Rightarrow> texts | None \<Rightarrow> []))))
          \<and> (\<forall>k. k \<notin> set (categories its) \<longrightarrow>
                map_of (rows ! i) k = map_of (mapped_entries ef sel (its ! i)) k)"
    by auto
qed

subsection \<open>When the rows are produced\<close>

lemma add_detectors_succeeds:
  "list_all (\<lambda>flag. \<not> nullish flag) flags \<Longrightarrow> \<exists>dets'. add_detectors dets flags = Inr dets'"
  by (induction flags arbitrary: dets) (simp_all add: get_prop_def)

lemma exportable_flag_not_nullish: "exportable_flag flag \<Longrightarrow> \<not> nullish flag"
  by (simp add: exportable_flag_def)

lemma exportable_flag_named:
  assumes "exportable_flag flag" and "truthy (detector_name flag)"
  shows "\<exists>text key.
           flag_text (opt_prop flag ''flagType'') (opt_prop flag ''from'') (opt_prop flag ''to'')
             = Inr text
         \<and> toPropertyKey (detector_name flag) = Inr key \<and> key \<notin> set object_prototype_keys"
  using assms by (auto simp: exportable_flag_def split: sum.splits)

lemma scan_detectors_succeeds:
  "list_all exportable_item its \<Longrightarrow> \<exists>dets'. scan_detectors dets its = Inr dets'"
proof (induction its arbitrary: dets)
  case Nil
  then show ?case by simp
next
  case (Cons item its)
  from Cons.prems have "exportable_item item"
    by simp
  then obtain flags where flags: "qcFlags_of item = Inr flags"
    and ok: "list_all exportable_flag flags"
    by (cases "qcFlags_of item") (auto simp: exportable_item_def)
  from ok have "list_all (\<lambda>flag. \<not> nullish flag) flags"
    by (auto simp: list_all_iff exportable_flag_not_nullish)
  then obtain dets1 where "add_detectors dets flags = Inr dets1"
    using add_detectors_succeeds by blast
  moreover obtain dets2 where "scan_detectors dets1 its = Inr dets2"
    using Cons.IH Cons.prems by auto
  ultimately show ?case
    by (simp add: flags)
qed

lemma collect_flags_succeeds:
  assumes "list_all exportable_flag flags"
  shows "\<exists>g'. collect_flags g flags = Inr g'"
  using assms
proof (induction flags arbitrary: g)
  case Nil
  then show ?case by simp
next
  case (Cons flag flags)
  then have flag: "exportable_flag flag"
    and rest: "\<And>g. \<exists>g'. collect_flags g flags = Inr g'"
    by auto
  from flag have ok: "\<not> nullish flag"
    by (rule exportable_flag_not_nullish)
  show ?case
  proof (cases "truthy (detector_name flag)")
    case False
    with ok rest [of g] show ?thesis
      by (simp add: detector_name_def Let_def)
  next
    case True
    from exportable_flag_named [OF flag True] obtain t key where
      rendered: "flag_text (opt_prop flag ''flagType'') (opt_prop flag ''from'') (opt_prop flag ''to'')
               = Inr t" and
      key: "toPropertyKey (detector_name flag) = Inr key" and
      own: "key \<notin> set object_prototype_keys"
      by blast
    from own have "member_of g key \<noteq> Inherited"
      by (simp add: member_of_def split: option.splits)
    with True ok rendered key rest show ?thesis
      by (cases "member_of g key") (simp_all add: detector_name_def [symmetric] Let_def)
  qed
qed

text \<open>On a batch of exportable items neither loop throws.\<close>

lemma format_items_succeeds:
  assumes "list_all exportable_item its"
  shows "\<exists>rows. format_items ef sel its = Inr rows"
proof -
  obtain dets where dets: "scan_detectors [] its = Inr dets"
    using scan_detectors_succeeds [OF assms] by blast
  have names: "set dets =
      {detector_name f | f. f \<in> set (concat (map flags_of its)) \<and> truthy (detector_name f)}"
    using scan_detectors_set [OF dets] by simp
  have flags_ok: "exportable_flag f" if "f \<in> set (concat (map flags_of its))" for f
  proof -
    from that obtain item where "item \<in> set its" and f: "f \<in> set (flags_of item)"
      by auto
    with assms have "exportable_item item"
      by (simp add: list_all_iff)
    with f show ?thesis
      by (cases "qcFlags_of item") (auto simp: exportable_item_def flags_of_def list_all_iff)
  qed
  have dets_ok: "\<exists>key. toPropertyKey d = Inr key \<and> key \<notin> set object_prototype_keys"
    if "d \<in> set dets" for d
  proof -
    from that names obtain f where "f \<in> set (concat (map flags_of its))"
      and "truthy (detector_name f)" and "d = detector_name f"
      by auto
    with exportable_flag_named [of f] flags_ok show ?thesis
      by blast
  qed
  have "\<exists>row. format_item ef sel dets item = Inr row" if "item \<in> set its" for item
  proof -
    from that assms have "exportable_item item"
      by (simp add: list_all_iff)
    then obtain flags where flags: "qcFlags_of item = Inr flags"
      and ok: "list_all exportable_flag flags"
      by (cases "qcFlags_of item") (auto simp: exportable_item_def)
    obtain g where g: "collect_flags Map.empty flags = Inr g"
      using collect_flags_succeeds [OF ok] by blast
    have "\<exists>c. detector_column g d = Inr c" if "d \<in> set dets" for d
    proof -
      from dets_ok [OF that] obtain key where "toPropertyKey d = Inr key"
        and "key \<notin> set object_prototype_keys"
        by blast
      then show ?thesis
        by (simp add: detector_column_def member_of_def split: option.splits)
    qed
    then obtain cols where "map_exn (detector_column g) dets = Inr cols"
      using map_exn_succeeds [of dets "detector_column g"] by blast
    with flags g show ?thesis
      by (simp add: format_item_def)
  qed
  then obtain rows where "map_exn (format_item ef sel dets) its = Inr rows"
    using map_exn_succeeds [of its "format_item ef sel dets"] by blast
  with dets show ?thesis
    by (simp add: format_items_def)
qed

text \<open>
  While the flags are collected, \<open>perDetectorFlags\<close> has no own property named like a
  member of \<open>Object.prototype\<close>: the first flag of such a detector makes the loop throw.
\<close>

lemma collect_flags_exportable:
  assumes "collect_flags g flags = Inr g'"
    and "dom g \<inter> set object_prototype_keys = {}"
  shows "list_all exportable_flag flags \<and> dom g' \<inter> set object_prototype_keys = {}"
  using assms
proof (induction flags arbitrary: g)
  case Nil
  then show ?case by simp
next
  case (Cons flag flags)
  from Cons.prems(1) have ok: "\<not> nullish flag"
    by (auto split: if_splits)
  show ?case
  proof (cases "truthy (detector_name flag)")
    case False
    with Cons.prems(1) ok have "collect_flags g flags = Inr g'"
      by (simp add: detector_name_def Let_def)
    from Cons.IH [OF this Cons.prems(2)] False ok show ?thesis
      by (simp add: exportable_flag_def)
  next
    case True
    from Cons.prems(1) ok True obtain t key where
      rendered: "flag_text (opt_prop flag ''flagType'') (opt_prop flag ''from'') (opt_prop flag ''to'')
               = Inr t" and
      key: "toPropertyKey (detector_name flag) = Inr key" and
      more: "(case member_of g key of
                Absent \<Rightarrow> collect_flags (g(key \<mapsto> [t])) flags
              | Own texts \<Rightarrow> collect_flags (g(key \<mapsto> texts @ [t])) flags
              | Inherited \<Rightarrow> Inl TypeError) = Inr g'"
      by (auto simp: detector_name_def [symmetric] Let_def split: sum.splits)
    have own: "key \<notin> set object_prototype_keys"
    proof
      assume proto: "key \<in> set object_prototype_keys"
      with Cons.prems(2) have "g key = None"
        by auto
      with proto have "member_of g key = Inherited"
        by (simp add: member_of_def)
      with more show False
        by simp
    qed
    from more obtain texts where rest: "collect_flags (g(key \<mapsto> texts)) flags = Inr g'"
      by (cases "member_of g key") auto
    have "dom (g(key \<mapsto> texts)) \<inter> set object_prototype_keys = {}"
      using Cons.prems(2) own by auto
    from Cons.IH [OF rest this] ok True rendered key own show ?thesis
      by (simp add: exportable_flag_def)
  qed
qed

text \<open>
  The rows are produced exactly for the batches of exportable items; on any other batch
  the loops throw, and createExport calls no sink.
\<close>

lemma format_items_exportable:
  "(\<exists>rows. format_items ef sel its = Inr rows) \<longleftrightarrow> list_all exportable_item its"
proof
  assume "\<exists>rows. format_items ef sel its = Inr rows"
  then obtain dets rows where "map_exn (format_item ef sel dets) its = Inr rows"
    by (auto simp: format_items_def split: sum.splits)
  then have all: "list_all2 (\<lambda>item row. format_item ef sel dets item = Inr row) its rows"
    by (rule map_exn_Inr)
  have "exportable_item item" if "item \<in> set its" for item
  proof -
    from that all obtain row where "format_item ef sel dets item = Inr row"
      by (auto simp: in_set_conv_nth list_all2_conv_all_nth)
    then obtain flags g where flags: "qcFlags_of item = Inr flags"
      and "collect_flags Map.empty flags = Inr g"
      by (auto simp: format_item_def split: sum.splits)
    then have "list_all exportable_flag flags"
      using collect_flags_exportable [of Map.empty flags g] by simp
    with flags show ?thesis
      by (simp add: exportable_item_def)
  qed
  then show "list_all exportable_item its"
    by (simp add: list_all_iff)
next
  assume "list_all exportable_item its"
  then show "\<exists>rows. format_items ef sel its = Inr rows"
    by (rule format_items_succeeds)
qed

lemma format_items_throws:
  "\<not> list_all exportable_item its \<Longrightarrow> format_items ef sel its = Inl TypeError"
proof -
  assume "\<not> list_all exportable_item its"
  then have "format_items ef sel its \<noteq> Inr rows" for rows
    using format_items_exportable [of ef sel its] by blast
  then obtain e where "format_items ef sel its = Inl e"
    by (cases "format_items ef sel its") auto
  then show ?thesis
    by (cases e) simp
qed

lemma createExport_exports:
  assumes "items m = Success its" and "its \<noteq> []"
  shows "createExport fileName exportFormats setError m =
           (if list_all exportable_item its
            then ([dispatch (selectedExportType m) fileName
                     (projr (format_items exportFormats (selectedFields m) its))], Fulfilled)
            else ([], Rejected TypeError))"
proof (cases "list_all exportable_item its")
  case False
  from format_items_throws [OF this] assms False show ?thesis
    by (simp add: createExport_def Let_def export_items_def getSelectedFields_def)
next
  case True
  then obtain rows where "format_items exportFormats (selectedFields m) its = Inr rows"
    using format_items_succeeds by blast
  with assms True show ?thesis
    by (simp add: createExport_def Let_def export_items_def getSelectedFields_def
        getSelectedExportType_def)
qed

lemma overview_rows:
  "format_items Map.empty [''runNumber'', ''fill'', ''lhcPeriod''] [run_2, run_3] =
     Inr [run_2_row, run_3_row]"
  by code_simp

lemma createExport_sink:
  assumes "createExport fileName exportFormats setError m = (effs, c)"
    and "CSVExport rows name mime \<in> set effs \<or> JSONExport rows name mime \<in> set effs"
  shows "isSuccess (items m) \<and> payload (items m) \<noteq> []
       \<and> format_items exportFormats (selectedFields m) (payload (items m)) = Inr rows"
proof (cases "\<not> isSuccess (items m) \<or> length (payload (items m)) = 0")
  case True
  with assms show ?thesis
    by (auto simp: createExport_def Let_def split: if_splits)
next
  case False
  with assms(1) have "export_items fileName exportFormats m (payload (items m)) = (effs, c)"
    by (simp add: createExport_def Let_def)
  with assms(2) False show ?thesis
    by (auto simp: export_items_def getSelectedFields_def dispatch_def split: sum.splits if_splits)
qed

subsection \<open>The projected and formatted fields\<close>

text \<open>
  C4: the projection of an item on the selected fields has no entry for a key that the item
  does not have or that is not selected; for a selected key that the item has, its entry
  is the value that the function \<open>exportFormat\<close> registered for the key returns for the
  raw value and the whole item, and the raw value itself when no such function is
  registered. When createExport hands rows to a sink, the row of the item holds that entry
  under every key that is not the key of a detector name of the batch.
\<close>

theorem projection_formats_selected_fields:
  shows "(k \<notin> record_fields item \<or> k \<notin> set selected
            \<longrightarrow> map_of (mapped_entries exportFormats selected item) k = None
              \<and> k \<notin> fst ` set (mapped_entries exportFormats selected item))
       \<and> (k \<in> set selected \<and> own_property item k = Some v
            \<longrightarrow> map_of (mapped_entries exportFormats selected item) k =
                Some (case exportFormats k of
                        None \<Rightarrow> v
                      | Some fmt \<Rightarrow> (case exportFormat fmt of None \<Rightarrow> v | Some format \<Rightarrow> format v item)))
       \<and> (items m = Success its
            \<and> createExport fileName exportFormats setError m = (effs, c)
            \<and> (CSVExport rows name mime \<in> set effs \<or> JSONExport rows name mime \<in> set effs)
            \<and> i < length its \<and> k \<notin> set (categories its)
            \<longrightarrow> map_of (rows ! i) k =
                  map_of (mapped_entries exportFormats (selectedFields m) (its ! i)) k)"
proof (intro conjI impI)
  assume "k \<notin> record_fields item \<or> k \<notin> set selected"
  then show "map_of (mapped_entries exportFormats selected item) k = None"
    by (auto simp: map_of_mapped_entries record_fields_own)
  then show "k \<notin> fst ` set (mapped_entries exportFormats selected item)"
    by (simp add: map_of_eq_None_iff)
next
  assume "k \<in> set selected \<and> own_property item k = Some v"
  then show "map_of (mapped_entries exportFormats selected item) k =
      Some (case exportFormats k of
              None \<Rightarrow> v
            | Some fmt \<Rightarrow> (case exportFormat fmt of None \<Rightarrow> v | Some format \<Rightarrow> format v item))"
    by (simp add: map_of_mapped_entries formatter_for_def split: option.splits)
next
  assume a: "items m = Success its
      \<and> createExport fileName exportFormats setError m = (effs, c)
      \<and> (CSVExport rows name mime \<in> set effs \<or> JSONExport rows name mime \<in> set effs)
      \<and> i < length its \<and> k \<notin> set (categories its)"
  then have "isSuccess (items m) \<and> payload (items m) \<noteq> []
       \<and> format_items exportFormats (selectedFields m) (payload (items m)) = Inr rows"
    by (intro createExport_sink) blast+
  with a have rows: "format_items exportFormats (selectedFields m) its = Inr rows"
    by simp
  from a have "i < length its" and "k \<notin> set (categories its)"
    by simp_all
  with format_items_row(2) [OF rows]
  show "map_of (rows ! i) k = map_of (mapped_entries exportFormats (selectedFields m) (its ! i)) k"
    by blast
qed


lemma overview_rows_with_fill:
  "format_items run_with_fill [''runNumber'', ''fill'', ''lhcPeriod''] [run_2, run_3] =
     Inr [run_2_fill_row, run_3_fill_row]"
  by code_simp

theorem projection_formats_selected_fields_witness:
  "own_property run_2 ''runNumber'' = Some (JNum 2)
   \<and> map_of (mapped_entries run_with_fill (selectedFields overview) run_2) ''runNumber''
       = Some (JStr ''2/7'')
   \<and> own_property run_2 ''fill'' = Some (JNum 7) \<and> run_with_fill ''fill'' = None
   \<and> map_of (mapped_entries run_with_fill (selectedFields overview) run_2) ''fill'' = Some (JNum 7)
   \<and> ''lhcPeriod'' \<notin> record_fields run_2
   \<and> map_of (mapped_entries run_with_fill (selectedFields overview) run_2) ''lhcPeriod'' = None
   \<and> createExport ''runs'' run_with_fill True overview =
       ([JSONExport [run_2_fill_row, run_3_fill_row] ''runs.json'' ''application/json''], Fulfilled)
   \<and> map_of run_2_fill_row ''runNumber'' = Some (JStr ''2/7'')"
proof -
  let ?sel = "selectedFields overview"
  have sel: "?sel = [''runNumber'', ''fill'', ''lhcPeriod'']"
    by (simp add: overview_def)
  have rn: "''runNumber'' \<in> set ?sel \<and> own_property run_2 ''runNumber'' = Some (JNum 2)"
    and fill: "''fill'' \<in> set ?sel \<and> own_property run_2 ''fill'' = Some (JNum 7)"
    and lhc: "''lhcPeriod'' \<notin> record_fields run_2 \<or> ''lhcPeriod'' \<notin> set ?sel"
    by (simp_all add: sel run_2_def record_fields_def)
  have run: "createExport ''runs'' run_with_fill True overview =
       ([JSONExport [run_2_fill_row, run_3_fill_row] ''runs.json'' ''application/json''], Fulfilled)"
    by (simp add: createExport_def overview_def export_items_def getSelectedFields_def
        getSelectedExportType_def dispatch_def overview_rows_with_fill)
  have cats: "categories [run_2, run_3] = [''TPC'', ''ITS'']"
    by code_simp
  have row: "items overview = Success [run_2, run_3]
      \<and> createExport ''runs'' run_with_fill True overview =
          ([JSONExport [run_2_fill_row, run_3_fill_row] ''runs.json'' ''application/json''], Fulfilled)
      \<and> (CSVExport [run_2_fill_row, run_3_fill_row] ''runs.json'' ''application/json''
            \<in> set [JSONExport [run_2_fill_row, run_3_fill_row] ''runs.json'' ''application/json'']
          \<or> JSONExport [run_2_fill_row, run_3_fill_row] ''runs.json'' ''application/json''
            \<in> set [JSONExport [run_2_fill_row, run_3_fill_row] ''runs.json'' ''application/json''])
      \<and> 0 < length [run_2, run_3] \<and> ''runNumber'' \<notin> set (categories [run_2, run_3])"
    using run by (simp add: cats overview_def)
  note a = projection_formats_selected_fields
      [where k = "''runNumber''" and item = run_2 and selected = ?sel
        and exportFormats = run_with_fill and v = "JNum 2", THEN conjunct2, THEN conjunct1,
        rule_format, OF rn]
  note b = projection_formats_selected_fields
      [where k = "''fill''" and item = run_2 and selected = ?sel
        and exportFormats = run_with_fill and v = "JNum 7", THEN conjunct2, THEN conjunct1,
        rule_format, OF fill]
  note c = projection_formats_selected_fields
      [where k = "''lhcPeriod''" and item = run_2 and selected = ?sel
        and exportFormats = run_with_fill, THEN conjunct1, rule_format, OF lhc, THEN conjunct1]
  note d = projection_formats_selected_fields
      [where k = "''runNumber''" and exportFormats = run_with_fill and m = overview
        and its = "[run_2, run_3]" and i = 0 and fileName = "''runs''" and setError = True,
        THEN conjunct2, THEN conjunct2, rule_format, OF row]
  have fmt: "run_with_fill ''fill'' = None"
    and "(case run_with_fill ''runNumber'' of None \<Rightarrow> JNum 2
          | Some fmt \<Rightarrow> (case exportFormat fmt of None \<Rightarrow> JNum 2 | Some format \<Rightarrow> format (JNum 2) run_2))
         = JStr ''2/7''"
    by (simp_all add: run_with_fill_def run_2_def num_str_def digits.simps digit_char_def)
  moreover have "''lhcPeriod'' \<notin> record_fields run_2"
    by (simp add: run_2_def record_fields_def)
  ultimately show ?thesis
    using a b c d rn fill run by (simp add: run_2_fill_row_def)
qed

subsection \<open>The columns of the rows that are produced\<close>

lemma collect_flags_lookup:
  assumes "collect_flags g flags = Inr g'"
  shows "(case g' k of Some texts \<Rightarrow> texts | None \<Rightarrow> []) =
      (case g k of Some texts \<Rightarrow> texts | None \<Rightarrow> [])
      @ concat (map (\<lambda>flag.
          if truthy (detector_name flag) \<and> toPropertyKey (detector_name flag) = Inr k
          then (case flag_text (opt_prop flag ''flagType'') (opt_prop flag ''from'')
                       (opt_prop flag ''to'') of
                  Inl e \<Rightarrow> []
                | Inr rendered \<Rightarrow> [rendered])
          else []) flags)"
  using assms
proof (induction flags arbitrary: g)
  case Nil
  then show ?case by simp
next
  case (Cons flag flags)
  from Cons.prems have ok: "\<not> nullish flag"
    by (auto split: if_splits)
  show ?case
  proof (cases "truthy (detector_name flag)")
    case False
    with Cons.prems ok have "collect_flags g flags = Inr g'"
      by (simp add: detector_name_def Let_def)
    from Cons.IH [OF this] False show ?thesis
      by simp
  next
    case True
    from Cons.prems ok True obtain t key where
      rendered: "flag_text (opt_prop flag ''flagType'') (opt_prop flag ''from'') (opt_prop flag ''to'')
               = Inr t" and
      key: "toPropertyKey (detector_name flag) = Inr key" and
      more: "(case member_of g key of
                Absent \<Rightarrow> collect_flags (g(key \<mapsto> [t])) flags
              | Own texts \<Rightarrow> collect_flags (g(key \<mapsto> texts @ [t])) flags
              | Inherited \<Rightarrow> Inl TypeError) = Inr g'"
      by (auto simp: detector_name_def [symmetric] Let_def split: sum.splits)
    from more have
      rest: "collect_flags (g(key \<mapsto> (case g key of Some texts \<Rightarrow> texts | None \<Rightarrow> []) @ [t])) flags
               = Inr g'"
      by (auto simp: member_of_def split: option.splits if_splits)
    from Cons.IH [OF rest] True rendered key show ?thesis
      by (cases "key = k") simp_all
  qed
qed

text \<open>
  Whenever the rows are produced, which they are for every batch of exportable items, the
  row of an item has the selected fields that the item has and the categories of the batch
  as its keys, and its column of a category holds the texts of the flags of the item in
  that category, joined with \<open>|\<close>: the empty string when the item has none.
\<close>

lemma export_columns:
  assumes "format_items ef sel its = Inr rows" and "i < length its"
  shows "fst ` set (rows ! i) = (set sel \<inter> record_fields (its ! i)) \<union> set (categories its)"
    and "category \<in> set (categories its) \<Longrightarrow>
         map_of (rows ! i) category = Some (JStr (join ''|'' (category_texts category (its ! i))))"
    and "category \<in> set (categories its) \<Longrightarrow> category_texts category (its ! i) = [] \<Longrightarrow>
         map_of (rows ! i) category = Some (JStr [])"
proof -
  from format_items_row(2) [OF assms] obtain g where
    g: "collect_flags Map.empty (flags_of (its ! i)) = Inr g" and
    keys: "fst ` set (rows ! i) =
        {k \<in> set sel. own_property (its ! i) k \<noteq> None} \<union> set (categories its)" and
    cols: "\<forall>k \<in> set (categories its).
        map_of (rows ! i) k = Some (JStr (join ''|'' (case g k of Some texts \<Rightarrow> texts | None \<Rightarrow> [])))"
    by blast
  show "fst ` set (rows ! i) = (set sel \<inter> record_fields (its ! i)) \<union> set (categories its)"
    using keys by (auto simp: record_fields_own)
  have "(case g k of Some texts \<Rightarrow> texts | None \<Rightarrow> []) = category_texts k (its ! i)" for k
    using collect_flags_lookup [OF g, of k] by (simp add: category_texts_def)
  with cols show col: "map_of (rows ! i) category =
      Some (JStr (join ''|'' (category_texts category (its ! i))))"
    if "category \<in> set (categories its)"
    using that by simp
  show "map_of (rows ! i) category = Some (JStr [])"
    if "category \<in> set (categories its)" and "category_texts category (its ! i) = []"
    using col that by simp
qed

lemma overview_columns:
  "categories [run_2, run_3] = [''TPC'', ''ITS'']
   \<and> category_texts ''TPC'' run_2 = [''BAD ( from: 10 to: 20 )'', '' ( from: 20 to: null )'']
   \<and> category_texts ''ITS'' run_2 = []"
  by code_simp

subsection \<open>Detectors named like a member of every object\<close>

lemma flag_of_item:
  assumes "flag \<in> set (flags_of item)"
  shows "\<exists>flags. qcFlags_of item = Inr flags \<and> flag \<in> set flags"
  using assms by (cases "qcFlags_of item") (simp_all add: flags_of_def)

text \<open>
  C2, where the code departs from it: when some flag of a non-empty success has a detector
  whose name has the key of a member of \<open>Object.prototype\<close> (\<open>constructor\<close>,
  \<open>toString\<close>, \<open>valueOf\<close>, ...), that key is one of the categories found in the batch, and
  yet no row gets a column for it: \<open>perDetectorFlags\<close>, the object literal \<open>{}\<close>, finds the
  inherited member under the key, createExport throws a \<open>TypeError\<close> and is rejected, and
  no rows are handed to any sink.
\<close>

theorem inherited_member_category_rejects_export:
  assumes "items m = Success its" and "item \<in> set its" and "flag \<in> set (flags_of item)"
    and "truthy (detector_name flag)" and "toPropertyKey (detector_name flag) = Inr key"
    and "key \<in> set object_prototype_keys"
  shows "key \<in> set (categories its)
       \<and> createExport fileName exportFormats setError m = ([], Rejected TypeError)"
proof
  show "key \<in> set (categories its)"
    unfolding set_categories using assms(2-5) by auto
  from flag_of_item [OF assms(3)] obtain flags where
    flags: "qcFlags_of item = Inr flags" and flag: "flag \<in> set flags"
    by blast
  have "\<not> exportable_flag flag"
    using exportable_flag_named [of flag] assms(4-6) by auto
  with flags flag have "\<not> exportable_item item"
    by (auto simp: exportable_item_def list_all_iff)
  with assms(2) have "\<not> list_all exportable_item its"
    by (auto simp: list_all_iff)
  moreover from assms(2) have "its \<noteq> []"
    by auto
  ultimately show "createExport fileName exportFormats setError m = ([], Rejected TypeError)"
    using createExport_exports [OF assms(1)] by simp
qed

theorem inherited_member_category_rejects_export_witness:
  "''constructor'' \<in> set (categories [run_1, run_9])
   \<and> createExport ''runs'' Map.empty True
       \<lparr>items = Success [run_1, run_9], selectedFields = [''runNumber''],
        selectedExportType = JStr ''CSV''\<rparr>
     = ([], Rejected TypeError)"
proof -
  let ?m = "\<lparr>items = Success [run_1, run_9], selectedFields = [''runNumber''],
        selectedExportType = JStr ''CSV''\<rparr>"
  have "items ?m = Success [run_1, run_9]" and "run_9 \<in> set [run_1, run_9]"
    and "constructor_flag \<in> set (flags_of run_9)"
    and "truthy (detector_name constructor_flag)"
    and "toPropertyKey (detector_name constructor_flag) = Inr ''constructor''"
    and "''constructor'' \<in> set object_prototype_keys"
    by (simp_all add: flags_of_def qcFlags_of_def get_prop_def run_9_def constructor_flag_def
        detector_name_def toPropertyKey_def object_prototype_keys_def)
  from inherited_member_category_rejects_export
      [where fileName = "''runs''" and exportFormats = Map.empty and setError = True, OF this]
  show ?thesis .
qed

text \<open>
  C3, where the code departs from it: once a detector whose name has the key of a member of
  \<open>Object.prototype\<close> has been found in the batch, the callback that builds the row of an
  item throws a \<open>TypeError\<close> for every item, also for an item without any flag of that
  detector, whose column the claim gives as the empty string:
  \<open>(perDetectorFlags[det] || [])\<close> is the inherited member, which has no \<open>join\<close>.
\<close>

theorem inherited_member_column_throws:
  assumes "det \<in> set dets" and "toPropertyKey det = Inr key"
    and "key \<in> set object_prototype_keys"
  shows "format_item exportFormats selected dets item = Inl TypeError"
proof (cases "format_item exportFormats selected dets item")
  case (Inl e)
  then show ?thesis
    by (cases e) simp
next
  case (Inr row)
  then obtain flags g cols where
    g: "collect_flags Map.empty flags = Inr g" and
    cols: "map_exn (detector_column g) dets = Inr cols"
    by (auto simp: format_item_def split: sum.splits)
  from collect_flags_exportable [OF g] have "dom g \<inter> set object_prototype_keys = {}"
    by simp
  with assms(3) have "g key = None"
    by auto
  with assms(2,3) have "detector_column g det = Inl TypeError"
    by (simp add: detector_column_def member_of_def)
  moreover from map_exn_all [OF cols assms(1)] obtain c where "detector_column g det = Inr c" ..
  ultimately show ?thesis
    by simp
qed

theorem inherited_member_column_throws_witness:
  "flags_of run_5 = []
   \<and> scan_detectors [] [run_5, run_8] = Inr [JStr ''valueOf'']
   \<and> format_item Map.empty [''runNumber''] [JStr ''valueOf''] run_5 = Inl TypeError
   \<and> createExport ''runs'' Map.empty True
       \<lparr>items = Success [run_5, run_8], selectedFields = [''runNumber''],
        selectedExportType = JStr ''JSON''\<rparr>
     = ([], Rejected TypeError)"
proof -
  have "JStr ''valueOf'' \<in> set [JStr ''valueOf'']"
    and "toPropertyKey (JStr ''valueOf'') = Inr ''valueOf''"
    and "''valueOf'' \<in> set object_prototype_keys"
    by (simp_all add: toPropertyKey_def object_prototype_keys_def)
  note row = inherited_member_column_throws
      [where exportFormats = Map.empty and selected = "[''runNumber'']" and item = run_5, OF this]
  have none: "flags_of run_5 = []"
    by (simp add: flags_of_def qcFlags_of_def get_prop_def run_5_def)
  have dets: "scan_detectors [] [run_5, run_8] = Inr [JStr ''valueOf'']"
    by code_simp
  have "format_items Map.empty [''runNumber''] [run_5, run_8] = Inl TypeError"
    unfolding format_items_def dets by (simp add: row)
  then have "createExport ''runs'' Map.empty True
       \<lparr>items = Success [run_5, run_8], selectedFields = [''runNumber''],
        selectedExportType = JStr ''JSON''\<rparr>
     = ([], Rejected TypeError)"
    by (simp add: createExport_def export_items_def getSelectedFields_def)
  with none dets row show ?thesis
    by simp
qed

subsection \<open>The map of the fetched flags\<close>

lemma own_qc_set:
  "k \<noteq> ''__proto__'' \<Longrightarrow> own (qc_set key v q) k = (if key = k then Some v else own q k)"
  by (auto simp: qc_set_def)

lemma own_qc_set_keeps: "own q k = Some w \<Longrightarrow> \<exists>w'. own (qc_set key v q) k = Some w'"
  by (auto simp: qc_set_def)

lemma own_qc_set_cases: "own (qc_set key v q) k = Some w \<Longrightarrow> w = v \<or> own q k = Some w"
  by (auto simp: qc_set_def split: if_splits)

lemma fetchQcFlags_Cons:
  assumes "fetchQcFlags g d n q (rn # rns) = (effs, Inr q')"
  obtains key effs' where "toPropertyKey rn = Inr key"
    and "fetchQcFlags g d (Suc n) (qc_set key (fetched_items (g n d rn)) q) rns = (effs', Inr q')"
    and "effs = Fetch d rn 1000 # effs'"
proof (cases "toPropertyKey rn")
  case (Inl e)
  with assms show ?thesis by simp
next
  case (Inr key)
  obtain effs' res where rest:
    "fetchQcFlags g d (Suc n) (qc_set key (fetched_items (g n d rn)) q) rns = (effs', res)"
    by (cases "fetchQcFlags g d (Suc n) (qc_set key (fetched_items (g n d rn)) q) rns")
  with assms Inr have "res = Inr q'" and "effs = Fetch d rn 1000 # effs'"
    by simp_all
  with Inr rest that show ?thesis
    by blast
qed

text \<open>When every run number has a key, there is one request per run number, in order.\<close>

lemma fetchQcFlags_requests:
  assumes "\<forall>rn \<in> set rns. \<exists>k. toPropertyKey rn = Inr k"
  shows "\<exists>q'. fetchQcFlags g d n q rns = (map (\<lambda>rn. Fetch d rn 1000) rns, Inr q')"
  using assms
proof (induction rns arbitrary: n q)
  case Nil
  then show ?case by simp
next
  case (Cons rn rns)
  then obtain k where k: "toPropertyKey rn = Inr k"
    by auto
  from Cons.prems have "\<forall>rn \<in> set rns. \<exists>k. toPropertyKey rn = Inr k"
    by simp
  from Cons.IH [OF this, of "Suc n" "qc_set k (fetched_items (g n d rn)) q"] obtain q' where
    "fetchQcFlags g d (Suc n) (qc_set k (fetched_items (g n d rn)) q) rns
       = (map (\<lambda>rn. Fetch d rn 1000) rns, Inr q')"
    by blast
  with k show ?case
    by simp
qed

lemma fetchQcFlags_untouched:
  assumes "fetchQcFlags g d n q rns = (effs, Inr q')" and "k \<noteq> ''__proto__''"
    and "\<forall>rn \<in> set rns. toPropertyKey rn \<noteq> Inr k"
  shows "own q' k = own q k"
  using assms
proof (induction rns arbitrary: n q effs)
  case Nil
  then show ?case by simp
next
  case (Cons rn rns)
  from Cons.prems(1) obtain key effs' where key: "toPropertyKey rn = Inr key"
    and rest: "fetchQcFlags g d (Suc n) (qc_set key (fetched_items (g n d rn)) q) rns = (effs', Inr q')"
    by (rule fetchQcFlags_Cons)
  from Cons.prems(3) key have "key \<noteq> k"
    by auto
  moreover from Cons.prems(3) have "\<forall>rn \<in> set rns. toPropertyKey rn \<noteq> Inr k"
    by simp
  ultimately show ?case
    using Cons.IH [OF rest Cons.prems(2)] Cons.prems(2) by (simp add: own_qc_set)
qed

text \<open>The map holds, for a run number, the answer to the last request made for its key.\<close>

lemma fetchQcFlags_last:
  assumes "fetchQcFlags g d n q rns = (effs, Inr q')" and "i < length rns"
    and "toPropertyKey (rns ! i) = Inr k" and "k \<noteq> ''__proto__''"
    and "\<forall>j. i < j \<and> j < length rns \<longrightarrow> toPropertyKey (rns ! j) \<noteq> Inr k"
  shows "own q' k = Some (fetched_items (g (n + i) d (rns ! i)))"
  using assms
proof (induction rns arbitrary: n q effs i)
  case Nil
  then show ?case by simp
next
  case (Cons rn rns)
  from Cons.prems(1) obtain key effs' where key: "toPropertyKey rn = Inr key"
    and rest: "fetchQcFlags g d (Suc n) (qc_set key (fetched_items (g n d rn)) q) rns = (effs', Inr q')"
    by (rule fetchQcFlags_Cons)
  show ?case
  proof (cases i)
    case 0
    with Cons.prems(3) key have same: "key = k"
      by simp
    have "\<forall>rn \<in> set rns. toPropertyKey rn \<noteq> Inr k"
    proof
      fix rn' assume "rn' \<in> set rns"
      then obtain j where "j < length rns" and "rns ! j = rn'"
        by (auto simp: in_set_conv_nth)
      with Cons.prems(5) [rule_format, of "Suc j"] 0 show "toPropertyKey rn' \<noteq> Inr k"
        by simp
    qed
    from fetchQcFlags_untouched [OF rest Cons.prems(4) this] 0 same Cons.prems(4) show ?thesis
      by (simp add: own_qc_set)
  next
    case (Suc i')
    have later: "\<forall>j. i' < j \<and> j < length rns \<longrightarrow> toPropertyKey (rns ! j) \<noteq> Inr k"
    proof (intro allI impI)
      fix j assume "i' < j \<and> j < length rns"
      with Cons.prems(5) [rule_format, of "Suc j"] Suc show "toPropertyKey (rns ! j) \<noteq> Inr k"
        by simp
    qed
    from Cons.prems(2,3) Suc have "i' < length rns" and "toPropertyKey (rns ! i') = Inr k"
      by simp_all
    from Cons.IH [OF rest this Cons.prems(4) later] Suc show ?thesis
      by simp
  qed
qed

text \<open>Every own property of the map holds what some request of the call has left.\<close>

lemma fetchQcFlags_stored:
  assumes "fetchQcFlags g d n q rns = (effs, Inr q')" and "own q' k = Some v"
  shows "own q k = Some v \<or> (\<exists>j < length rns. v = fetched_items (g (n + j) d (rns ! j)))"
  using assms
proof (induction rns arbitrary: n q effs)
  case Nil
  then show ?case by simp
next
  case (Cons rn rns)
  from Cons.prems(1) obtain key effs' where key: "toPropertyKey rn = Inr key"
    and rest: "fetchQcFlags g d (Suc n) (qc_set key (fetched_items (g n d rn)) q) rns = (effs', Inr q')"
    by (rule fetchQcFlags_Cons)
  from Cons.IH [OF rest Cons.prems(2)]
  consider "own (qc_set key (fetched_items (g n d rn)) q) k = Some v"
    | j where "j < length rns" and "v = fetched_items (g (Suc n + j) d (rns ! j))"
    by blast
  then show ?case
  proof cases
    case 1
    from own_qc_set_cases [OF this] show ?thesis
      by auto
  next
    case 2
    then have "Suc j < length (rn # rns)" and "v = fetched_items (g (n + Suc j) d ((rn # rns) ! Suc j))"
      by simp_all
    then show ?thesis
      by blast
  qed
qed

lemma fetchQcFlags_keeps:
  assumes "fetchQcFlags g d n q rns = (effs, Inr q')" and "own q k = Some v"
  shows "\<exists>v'. own q' k = Some v'"
  using assms
proof (induction rns arbitrary: n q effs v)
  case Nil
  then show ?case by simp
next
  case (Cons rn rns)
  from Cons.prems(1) obtain key effs' where
    rest: "fetchQcFlags g d (Suc n) (qc_set key (fetched_items (g n d rn)) q) rns = (effs', Inr q')"
    by (rule fetchQcFlags_Cons)
  from own_qc_set_keeps [OF Cons.prems(2)] obtain w where
    "own (qc_set key (fetched_items (g n d rn)) q) k = Some w"
    by blast
  with Cons.IH [OF rest] show ?case
    by blast
qed

text \<open>
  What createExport reads from the map has been written before: a key of a run number
  other than \<open>__proto__\<close> is an own property of the map that \<open>_fetchQcFlags\<close> returns.
\<close>

lemma fetchQcFlags_written:
  assumes "fetchQcFlags g d n q rns = (effs, Inr q')" and "rn \<in> set rns"
    and "toPropertyKey rn = Inr k" and "k \<noteq> ''__proto__''"
  shows "\<exists>v. own q' k = Some v"
  using assms
proof (induction rns arbitrary: n q effs)
  case Nil
  then show ?case by simp
next
  case (Cons rn' rns)
  from Cons.prems(1) obtain key effs' where key: "toPropertyKey rn' = Inr key"
    and rest: "fetchQcFlags g d (Suc n) (qc_set key (fetched_items (g n d rn')) q) rns = (effs', Inr q')"
    by (rule fetchQcFlags_Cons)
  show ?case
  proof (cases "rn \<in> set rns")
    case True
    from Cons.IH [OF rest True Cons.prems(3,4)] show ?thesis .
  next
    case False
    with Cons.prems(2) have "rn' = rn"
      by simp
    with key Cons.prems(3) have "key = k"
      by simp
    with Cons.prems(4) have "own (qc_set key (fetched_items (g n d rn')) q) k
        = Some (fetched_items (g n d rn'))"
      by (simp add: own_qc_set)
    with rest show ?thesis
      by (rule fetchQcFlags_keeps)
  qed
qed

subsection \<open>The enrichment of well-formed runs\<close>

lemma run_with_key_key:
  assumes "run_with_key item"
  obtains k where "\<not> nullish item" and "toPropertyKey (opt_prop item ''runNumber'') = Inr k"
    and "k \<noteq> ''__proto__''"
  using assms by (auto simp: run_with_key_def split: sum.splits)

lemma with_flags_own:
  assumes "\<not> nullish item" and "toPropertyKey (opt_prop item ''runNumber'') = Inr k"
    and "own q k = Some v"
  shows "with_flags q item =
           Inr (JObj (obj_set ''qcFlags'' (if truthy v then v else JArr []) (spread item)))"
  using assms by (simp add: with_flags_def get_prop_def qc_get_def Let_def)

lemma qcFlags_of_set:
  "qcFlags_of (JObj (obj_set ''qcFlags'' v ps)) =
     (case v of JUndefined \<Rightarrow> Inr [] | JNull \<Rightarrow> Inr [] | JArr flags \<Rightarrow> Inr flags
      | other \<Rightarrow> Inl TypeError)"
  by (simp add: qcFlags_of_def get_prop_def map_of_obj_set)

lemma usable_flags_exportable:
  "usable_flags v \<Longrightarrow>
   exportable_item (JObj (obj_set ''qcFlags'' (if truthy v then v else JArr []) ps))"
  by (cases v) (simp_all add: usable_flags_def exportable_item_def qcFlags_of_set)

text \<open>
  On runs with keys the body of the \<open>try\<close> makes one request per item, in order, and
  gives every item the flags that the map holds under the key of its run number.
\<close>

lemma enrich_items:
  assumes "list_all run_with_key its"
  shows "\<exists>q its'.
      fetchQcFlags g d 0 empty_qcmap (map (\<lambda>item. opt_prop item ''runNumber'') its)
        = (map (\<lambda>item. Fetch d (opt_prop item ''runNumber'') 1000) its, Inr q)
    \<and> enrich g d its = (map (\<lambda>item. Fetch d (opt_prop item ''runNumber'') 1000) its, Inr its')
    \<and> length its' = length its
    \<and> (\<forall>i < length its. \<exists>k v.
          toPropertyKey (opt_prop (its ! i) ''runNumber'') = Inr k \<and> k \<noteq> ''__proto__''
        \<and> own q k = Some v
        \<and> its' ! i = JObj (obj_set ''qcFlags'' (if truthy v then v else JArr []) (spread (its ! i))))"
proof -
  let ?rns = "map (\<lambda>item. opt_prop item ''runNumber'') its"
  let ?reqs = "map (\<lambda>item. Fetch d (opt_prop item ''runNumber'') 1000) its"
  have keyed: "run_with_key item" if "item \<in> set its" for item
    using that assms by (simp add: list_all_iff)
  have "\<forall>item \<in> set its. \<not> nullish item"
    using keyed by (auto elim: run_with_key_key)
  then obtain rns where "map_exn (\<lambda>item. get_prop item ''runNumber'') its = Inr rns"
    using runNumbers_read_iff [of "''runNumber''" its] by blast
  with runNumbers_read [OF this] have
    rns: "map_exn (\<lambda>item. get_prop item ''runNumber'') its = Inr ?rns"
    by simp
  have "\<forall>rn \<in> set ?rns. \<exists>k. toPropertyKey rn = Inr k"
    using keyed by (auto elim: run_with_key_key)
  from fetchQcFlags_requests [OF this, of g d 0 empty_qcmap] obtain q where
    q: "fetchQcFlags g d 0 empty_qcmap ?rns = (?reqs, Inr q)"
    by (auto simp: comp_def)
  have flagged: "\<exists>k v. toPropertyKey (opt_prop item ''runNumber'') = Inr k \<and> k \<noteq> ''__proto__''
      \<and> own q k = Some v
      \<and> with_flags q item =
          Inr (JObj (obj_set ''qcFlags'' (if truthy v then v else JArr []) (spread item)))"
    if "item \<in> set its" for item
  proof -
    from keyed [OF that] obtain k where ok: "\<not> nullish item"
      and k: "toPropertyKey (opt_prop item ''runNumber'') = Inr k" and np: "k \<noteq> ''__proto__''"
      by (rule run_with_key_key)
    from that have "opt_prop item ''runNumber'' \<in> set ?rns"
      by simp
    from fetchQcFlags_written [OF q this k np] obtain v where v: "own q k = Some v" ..
    from with_flags_own [OF ok k v] k np v show ?thesis
      by blast
  qed
  then have "\<exists>item'. with_flags q item = Inr item'" if "item \<in> set its" for item
    using that by blast
  then obtain its' where its': "map_exn (with_flags q) its = Inr its'"
    using map_exn_succeeds [of its "with_flags q"] by blast
  then have all: "list_all2 (\<lambda>item item'. with_flags q item = Inr item') its its'"
    by (rule map_exn_Inr)
  have en: "enrich g d its = (?reqs, Inr its')"
    using rns q its' by (simp add: enrich_def)
  have len: "length its' = length its"
    using all by (simp add: list_all2_lengthD)
  have "\<exists>k v. toPropertyKey (opt_prop (its ! i) ''runNumber'') = Inr k \<and> k \<noteq> ''__proto__''
        \<and> own q k = Some v
        \<and> its' ! i = JObj (obj_set ''qcFlags'' (if truthy v then v else JArr []) (spread (its ! i)))"
    if "i < length its" for i
  proof -
    from all that have "with_flags q (its ! i) = Inr (its' ! i)"
      by (rule list_all2_nthD)
    with flagged [of "its ! i"] that show ?thesis
      by auto
  qed
  with q en len show ?thesis
    by blast
qed

text \<open>When every answer is usable, the items with their flags are exportable.\<close>

lemma enrich_usable:
  assumes "list_all run_with_key its"
    and "\<forall>j < length its. usable_answer (g j d (opt_prop (its ! j) ''runNumber''))"
  shows "\<exists>its'. enrich g d its = (map (\<lambda>item. Fetch d (opt_prop item ''runNumber'') 1000) its, Inr its')
           \<and> length its' = length its \<and> list_all exportable_item its'"
proof -
  let ?rns = "map (\<lambda>item. opt_prop item ''runNumber'') its"
  from enrich_items [OF assms(1), of g d] obtain q its' where
    q: "fetchQcFlags g d 0 empty_qcmap ?rns
          = (map (\<lambda>item. Fetch d (opt_prop item ''runNumber'') 1000) its, Inr q)" and
    en: "enrich g d its = (map (\<lambda>item. Fetch d (opt_prop item ''runNumber'') 1000) its, Inr its')" and
    len: "length its' = length its" and
    each: "\<forall>i < length its. \<exists>k v.
          toPropertyKey (opt_prop (its ! i) ''runNumber'') = Inr k \<and> k \<noteq> ''__proto__''
        \<and> own q k = Some v
        \<and> its' ! i = JObj (obj_set ''qcFlags'' (if truthy v then v else JArr []) (spread (its ! i)))"
    by blast
  have "exportable_item (its' ! i)" if "i < length its'" for i
  proof -
    from that len each obtain k v where v: "own q k = Some v"
      and item': "its' ! i = JObj (obj_set ''qcFlags'' (if truthy v then v else JArr []) (spread (its ! i)))"
      by auto
    from fetchQcFlags_stored [OF q v] obtain j where "j < length its"
      and "v = fetched_items (g j d (opt_prop (its ! j) ''runNumber''))"
      by (auto simp: empty_qcmap_def)
    with assms(2) have "usable_flags v"
      by (simp add: usable_answer_def)
    then show ?thesis
      unfolding item' by (rule usable_flags_exportable)
  qed
  then have "list_all exportable_item its'"
    by (simp add: list_all_length)
  with en len show ?thesis
    by blast
qed

text \<open>
  An item whose request is rejected, and whose key no later item has, gets the empty array.
\<close>

lemma enrich_rejected:
  assumes "list_all run_with_key its"
    and "enrich g d its = (reqs, Inr its')"
    and "i < length its"
    and "g i d (opt_prop (its ! i) ''runNumber'') = Rejects"
    and "\<forall>j. i < j \<and> j < length its \<longrightarrow>
           toPropertyKey (opt_prop (its ! j) ''runNumber'')
             \<noteq> toPropertyKey (opt_prop (its ! i) ''runNumber'')"
  shows "opt_prop (its' ! i) ''qcFlags'' = JArr []" and "flags_of (its' ! i) = []"
proof -
  let ?rns = "map (\<lambda>item. opt_prop item ''runNumber'') its"
  from enrich_items [OF assms(1), of g d] assms(2) obtain q where
    q: "fetchQcFlags g d 0 empty_qcmap ?rns
          = (map (\<lambda>item. Fetch d (opt_prop item ''runNumber'') 1000) its, Inr q)" and
    each: "\<forall>i < length its. \<exists>k v.
          toPropertyKey (opt_prop (its ! i) ''runNumber'') = Inr k \<and> k \<noteq> ''__proto__''
        \<and> own q k = Some v
        \<and> its' ! i = JObj (obj_set ''qcFlags'' (if truthy v then v else JArr []) (spread (its ! i)))"
    by auto
  from each assms(3) obtain k v where
    k: "toPropertyKey (opt_prop (its ! i) ''runNumber'') = Inr k" and np: "k \<noteq> ''__proto__''" and
    v: "own q k = Some v" and
    item': "its' ! i = JObj (obj_set ''qcFlags'' (if truthy v then v else JArr []) (spread (its ! i)))"
    by blast
  have "own q k = Some (fetched_items (g (0 + i) d (?rns ! i)))"
    using q
  proof (rule fetchQcFlags_last)
    show "i < length ?rns"
      using assms(3) by simp
    show "toPropertyKey (?rns ! i) = Inr k"
      using assms(3) k by simp
    show "k \<noteq> ''__proto__''"
      by (rule np)
    show "\<forall>j. i < j \<and> j < length ?rns \<longrightarrow> toPropertyKey (?rns ! j) \<noteq> Inr k"
      using assms(3,5) k by simp
  qed
  with v assms(3,4) have "v = JArr []"
    by (simp add: fetched_items_def)
  with item' have item: "its' ! i = JObj (obj_set ''qcFlags'' (JArr []) (spread (its ! i)))"
    by simp
  show "opt_prop (its' ! i) ''qcFlags'' = JArr []"
    by (simp add: item map_of_obj_set)
  show "flags_of (its' ! i) = []"
    by (simp add: item flags_of_def qcFlags_of_set)
qed

text \<open>
  With a truthy data pass id, runs with keys and usable answers, createExport makes its
  requests and hands the rows of the items with their flags to the sink.
\<close>

lemma rdp_createExport_exports:
  assumes "items r = Success its" and "its \<noteq> []" and "truthy (dataPassId r)"
    and "list_all run_with_key its"
    and "\<forall>j < length its.
           usable_answer (g j (dataPassId r) (opt_prop (its ! j) ''runNumber''))"
  shows "\<exists>its' rows.
      enrich g (dataPassId r) its
        = (map (\<lambda>item. Fetch (dataPassId r) (opt_prop item ''runNumber'') 1000) its, Inr its')
    \<and> length its' = length its
    \<and> format_items ef (selectedFields r) its' = Inr rows
    \<and> rdp_createExport g f ef se r
        = (map (\<lambda>item. Fetch (dataPassId r) (opt_prop item ''runNumber'') 1000) its
             @ [dispatch (selectedExportType r) f rows], Fulfilled)"
proof -
  from enrich_usable [where g = g and d = "dataPassId r", OF assms(4,5)] obtain its' where
    en: "enrich g (dataPassId r) its
          = (map (\<lambda>item. Fetch (dataPassId r) (opt_prop item ''runNumber'') 1000) its, Inr its')" and
    len: "length its' = length its" and ok: "list_all exportable_item its'"
    by blast
  from format_items_succeeds [OF ok] obtain rows where
    rows: "format_items ef (selectedFields r) its' = Inr rows"
    by blast
  have "rdp_createExport g f ef se r
      = (map (\<lambda>item. Fetch (dataPassId r) (opt_prop item ''runNumber'') 1000) its
           @ [dispatch (selectedExportType r) f rows], Fulfilled)"
    using assms(1-3) en rows
    by (simp add: rdp_createExport_def Let_def export_items_def getSelectedFields_def
        getSelectedExportType_def)
  with en len rows show ?thesis
    by blast
qed

subsection \<open>Rejected requests\<close>

lemma tpc_bad_flag_exportable: "exportable_flag tpc_bad_flag"
  by code_simp

lemma flaky_remote_usable: "usable_answer (flaky_remote n d rn)"
  by (simp add: flaky_remote_def usable_answer_def usable_flags_def fetched_items_def
      get_prop_def tpc_bad_flag_exportable)

lemma runs_5_6_with_keys: "list_all run_with_key [run_5, run_6]"
  by code_simp

lemma flaky_rows:
  "rdp_createExport flaky_remote ''runs'' Map.empty True
     \<lparr>items = Success [run_5, run_6], selectedFields = [''runNumber''],
      selectedExportType = JStr ''JSON'', dataPassId = JNum 7\<rparr>
   = ([Fetch (JNum 7) (JNum 5) 1000, Fetch (JNum 7) (JNum 6) 1000,
       JSONExport [[(''runNumber'', JNum 5), (''TPC'', JStr [])], run_6_row]
         ''runs.json'' ''application/json''], Fulfilled)"
  by code_simp

text \<open>
  C5, amended: with a truthy data pass id, on runs that have keys and with answers that the
  export can use, an item whose own request is rejected, and whose run number is not
  requested again for a later item of the batch, is given the empty array as its
  \<open>qcFlags\<close>. The export goes on: createExport makes one request per item, in order, hands
  the rows of all items with their flags to the sink, one row per item, and is fulfilled;
  \<open>setError\<close> is not called. The row of that item holds the empty string in the column
  of every detector found in the batch.
\<close>

theorem rejected_request_gives_empty_columns:
  assumes "items r = Success its" and "its \<noteq> []" and "truthy (dataPassId r)"
    and "list_all run_with_key its"
    and "\<forall>j < length its.
           usable_answer (getRemoteDataSlice j (dataPassId r) (opt_prop (its ! j) ''runNumber''))"
    and "i < length its"
    and "getRemoteDataSlice i (dataPassId r) (opt_prop (its ! i) ''runNumber'') = Rejects"
    and "\<forall>j. i < j \<and> j < length its \<longrightarrow>
           toPropertyKey (opt_prop (its ! j) ''runNumber'')
             \<noteq> toPropertyKey (opt_prop (its ! i) ''runNumber'')"
  shows "\<exists>itemsWithFlags rows.
           snd (enrich getRemoteDataSlice (dataPassId r) its) = Inr itemsWithFlags
         \<and> opt_prop (itemsWithFlags ! i) ''qcFlags'' = JArr []
         \<and> format_items exportFormats (selectedFields r) itemsWithFlags = Inr rows
         \<and> rdp_createExport getRemoteDataSlice fileName exportFormats setError r =
             (map (\<lambda>item. Fetch (dataPassId r) (opt_prop item ''runNumber'') 1000) its
                @ [dispatch (selectedExportType r) fileName rows], Fulfilled)
         \<and> length rows = length its
         \<and> (\<forall>category \<in> set (categories itemsWithFlags).
               map_of (rows ! i) category = Some (JStr []))"
proof -
  from rdp_createExport_exports
    [where g = getRemoteDataSlice and ef = exportFormats and f = fileName and se = setError,
      OF assms(1-5)]
  obtain its' rows where
    en: "enrich getRemoteDataSlice (dataPassId r) its
          = (map (\<lambda>item. Fetch (dataPassId r) (opt_prop item ''runNumber'') 1000) its, Inr its')" and
    len': "length its' = length its" and
    rows: "format_items exportFormats (selectedFields r) its' = Inr rows" and
    run: "rdp_createExport getRemoteDataSlice fileName exportFormats setError r
        = (map (\<lambda>item. Fetch (dataPassId r) (opt_prop item ''runNumber'') 1000) its
             @ [dispatch (selectedExportType r) fileName rows], Fulfilled)"
    by blast
  from enrich_rejected [OF assms(4) en assms(6-8)]
  have no_flags: "opt_prop (its' ! i) ''qcFlags'' = JArr []" "flags_of (its' ! i) = []"
    by simp_all
  have i: "i < length its'"
    using assms(6) len' by simp
  from format_items_row(1) [OF rows i] len' have len: "length rows = length its"
    by simp
  from format_items_row(2) [OF rows i] no_flags(2)
  have "\<forall>category \<in> set (categories its'). map_of (rows ! i) category = Some (JStr [])"
    by auto
  with en no_flags(1) rows run len show ?thesis
    by (intro exI [of _ its'] exI [of _ rows]) simp
qed

theorem rejected_request_gives_empty_columns_witness:
  "flaky_remote 0 (JNum 7) (JNum 5) = Rejects
   \<and> rdp_createExport flaky_remote ''runs'' Map.empty True
       \<lparr>items = Success [run_5, run_6], selectedFields = [''runNumber''],
        selectedExportType = JStr ''JSON'', dataPassId = JNum 7\<rparr>
     = ([Fetch (JNum 7) (JNum 5) 1000, Fetch (JNum 7) (JNum 6) 1000,
         JSONExport [[(''runNumber'', JNum 5), (''TPC'', JStr [])], run_6_row]
           ''runs.json'' ''application/json''], Fulfilled)
   \<and> map_of ([[(''runNumber'', JNum 5), (''TPC'', JStr [])], run_6_row] ! 0) ''TPC'' = Some (JStr [])"
proof -
  let ?r = "\<lparr>items = Success [run_5, run_6], selectedFields = [''runNumber''],
        selectedExportType = JStr ''JSON'', dataPassId = JNum 7\<rparr>"
  let ?rows = "[[(''runNumber'', JNum 5), (''TPC'', JStr [])], run_6_row]"
  have first: "flaky_remote 0 (JNum 7) (JNum 5) = Rejects"
    by (simp add: flaky_remote_def)
  have its: "items ?r = Success [run_5, run_6]" and some: "[run_5, run_6] \<noteq> []"
    and dp: "truthy (dataPassId ?r)"
    by simp_all
  have keys: "list_all run_with_key [run_5, run_6]"
    by (rule runs_5_6_with_keys)
  have answers: "\<forall>j < length [run_5, run_6].
      usable_answer (flaky_remote j (dataPassId ?r) (opt_prop ([run_5, run_6] ! j) ''runNumber''))"
    by (simp add: flaky_remote_usable)
  have i: "(0::nat) < length [run_5, run_6]"
    by simp
  have rejected: "flaky_remote 0 (dataPassId ?r) (opt_prop ([run_5, run_6] ! 0) ''runNumber'') = Rejects"
    by (simp add: flaky_remote_def)
  have later: "\<forall>j. 0 < j \<and> j < length [run_5, run_6] \<longrightarrow>
      toPropertyKey (opt_prop ([run_5, run_6] ! j) ''runNumber'')
        \<noteq> toPropertyKey (opt_prop ([run_5, run_6] ! 0) ''runNumber'')"
  proof (intro allI impI)
    fix j :: nat assume "0 < j \<and> j < length [run_5, run_6]"
    then have "j = 1" by simp
    then show "toPropertyKey (opt_prop ([run_5, run_6] ! j) ''runNumber'')
        \<noteq> toPropertyKey (opt_prop ([run_5, run_6] ! 0) ''runNumber'')"
      by (simp add: run_5_def run_6_def toPropertyKey_def num_str_def digits.simps digit_char_def)
  qed
  from rejected_request_gives_empty_columns
    [where fileName = "''runs''" and exportFormats = Map.empty and setError = True
      and getRemoteDataSlice = flaky_remote and r = ?r and its = "[run_5, run_6]" and i = 0,
      OF its some dp keys answers i rejected later]
  obtain itemsWithFlags rows where
    en: "snd (enrich flaky_remote (dataPassId ?r) [run_5, run_6]) = Inr itemsWithFlags" and
    run: "rdp_createExport flaky_remote ''runs'' Map.empty True ?r =
             (map (\<lambda>item. Fetch (dataPassId ?r) (opt_prop item ''runNumber'') 1000) [run_5, run_6]
                @ [dispatch (selectedExportType ?r) ''runs'' rows], Fulfilled)" and
    cols: "\<forall>category \<in> set (categories itemsWithFlags). map_of (rows ! 0) category = Some (JStr [])"
    by blast
  have rn: "opt_prop run_5 ''runNumber'' = JNum 5" "opt_prop run_6 ''runNumber'' = JNum 6"
    by (simp_all add: run_5_def run_6_def)
  from run have "rows = ?rows"
    by (simp add: flaky_rows dispatch_def rn)
  have "snd (enrich flaky_remote (JNum 7) [run_5, run_6]) =
      Inr [JObj [(''runNumber'', JNum 5), (''qcFlags'', JArr [])],
           JObj [(''runNumber'', JNum 6), (''qcFlags'', JArr [tpc_bad_flag])]]"
    by code_simp
  with en have "itemsWithFlags =
      [JObj [(''runNumber'', JNum 5), (''qcFlags'', JArr [])],
       JObj [(''runNumber'', JNum 6), (''qcFlags'', JArr [tpc_bad_flag])]]"
    by simp
  moreover have "categories [JObj [(''runNumber'', JNum 5), (''qcFlags'', JArr [])],
       JObj [(''runNumber'', JNum 6), (''qcFlags'', JArr [tpc_bad_flag])]] = [''TPC'']"
    by code_simp
  ultimately have "''TPC'' \<in> set (categories itemsWithFlags)"
    by simp
  with cols \<open>rows = ?rows\<close> have "map_of (?rows ! 0) ''TPC'' = Some (JStr [])"
    by blast
  with first flaky_rows show ?thesis
    by blast
qed

text \<open>
  C5 as it is stated fails when two items have the same run number: the request of the
  first is rejected, the request of the second is answered, and both items get the
  answered flags, since the map of \<open>_fetchQcFlags\<close> is keyed by the run number.
\<close>

theorem rejected_request_counterexample:
  "flaky_remote 0 (JNum 7) (opt_prop run_1_first ''runNumber'') = Rejects
   \<and> rdp_createExport flaky_remote ''runs'' Map.empty True
       \<lparr>items = Success [run_1_first, run_1_again], selectedFields = [''runNumber''],
        selectedExportType = JStr ''JSON'', dataPassId = JNum 7\<rparr>
     = ([Fetch (JNum 7) (JNum 1) 1000, Fetch (JNum 7) (JNum 1) 1000,
         JSONExport [run_1_row, run_1_row] ''runs.json'' ''application/json''], Fulfilled)
   \<and> map_of ([run_1_row, run_1_row] ! 0) ''TPC'' = Some (JStr ''BAD ( from: 10 to: 20 )'')
   \<and> JStr ''BAD ( from: 10 to: 20 )'' \<noteq> JStr []"
  by code_simp

subsection \<open>The same rows for both export types\<close>

lemma flaky_rows_csv:
  "rdp_createExport flaky_remote ''runs'' Map.empty True
     \<lparr>items = Success [run_5, run_6], selectedFields = [''runNumber''],
      selectedExportType = JStr ''CSV'', dataPassId = JNum 7\<rparr>
   = ([Fetch (JNum 7) (JNum 5) 1000, Fetch (JNum 7) (JNum 6) 1000,
       CSVExport [[(''runNumber'', JNum 5), (''TPC'', JStr [])], run_6_row]
         ''runs.csv'' ''text/csv;charset=utf-8;''], Fulfilled)"
  by code_simp

lemma run_1_exportable: "list_all exportable_item [run_1]"
  by code_simp

text \<open>
  C8: with the same items, selected fields and formatters (and the same answers of the
  endpoint), createExport under the export type CSV and under JSON does the same up to the
  sink call: either neither run reaches a sink, or the CSV run hands the rows to the CSV
  sink as \<open><fileName>.csv\<close> with MIME type \<open>text/csv;charset=utf-8;\<close> and the JSON run
  hands the same rows to the JSON sink as \<open><fileName>.json\<close> with \<open>application/json\<close>.
  This holds for both models. And both runs do reach their sinks, with the formatted rows
  of the items, whenever the items are exportable: in the base model and in the specialised
  model without a truthy data pass id on the items as they are, in the specialised model
  with a truthy data pass id after one request per item, on runs with keys and with usable
  answers.
\<close>

theorem export_type_changes_destination_only:
  fixes m :: export_model and r :: rdp_export_model
  shows
    "(\<exists>pre c. list_all (\<lambda>e. \<not> is_sink e) pre \<and>
       ((createExport f ef se (m\<lparr>selectedExportType := JStr ''CSV''\<rparr>) = (pre, c)
          \<and> createExport f ef se (m\<lparr>selectedExportType := JStr ''JSON''\<rparr>) = (pre, c))
        \<or> (\<exists>rows.
             createExport f ef se (m\<lparr>selectedExportType := JStr ''CSV''\<rparr>)
               = (pre @ [CSVExport rows (f @ ''.csv'') ''text/csv;charset=utf-8;''], c)
           \<and> createExport f ef se (m\<lparr>selectedExportType := JStr ''JSON''\<rparr>)
               = (pre @ [JSONExport rows (f @ ''.json'') ''application/json''], c))))
   \<and> (\<exists>pre c. list_all (\<lambda>e. \<not> is_sink e) pre \<and>
       ((rdp_createExport g f ef se (r\<lparr>selectedExportType := JStr ''CSV''\<rparr>) = (pre, c)
          \<and> rdp_createExport g f ef se (r\<lparr>selectedExportType := JStr ''JSON''\<rparr>) = (pre, c))
        \<or> (\<exists>rows.
             rdp_createExport g f ef se (r\<lparr>selectedExportType := JStr ''CSV''\<rparr>)
               = (pre @ [CSVExport rows (f @ ''.csv'') ''text/csv;charset=utf-8;''], c)
           \<and> rdp_createExport g f ef se (r\<lparr>selectedExportType := JStr ''JSON''\<rparr>)
               = (pre @ [JSONExport rows (f @ ''.json'') ''application/json''], c))))
   \<and> (items m = Success its \<and> its \<noteq> [] \<and> list_all exportable_item its
        \<longrightarrow> (\<exists>rows.
               format_items ef (selectedFields m) its = Inr rows
             \<and> createExport f ef se (m\<lparr>selectedExportType := JStr ''CSV''\<rparr>)
                 = ([CSVExport rows (f @ ''.csv'') ''text/csv;charset=utf-8;''], Fulfilled)
             \<and> createExport f ef se (m\<lparr>selectedExportType := JStr ''JSON''\<rparr>)
                 = ([JSONExport rows (f @ ''.json'') ''application/json''], Fulfilled)))
   \<and> (items r = Success runs \<and> runs \<noteq> [] \<and> \<not> truthy (dataPassId r)
        \<and> list_all exportable_item runs
        \<longrightarrow> (\<exists>rows.
               format_items ef (selectedFields r) runs = Inr rows
             \<and> rdp_createExport g f ef se (r\<lparr>selectedExportType := JStr ''CSV''\<rparr>)
                 = ([CSVExport rows (f @ ''.csv'') ''text/csv;charset=utf-8;''], Fulfilled)
             \<and> rdp_createExport g f ef se (r\<lparr>selectedExportType := JStr ''JSON''\<rparr>)
                 = ([JSONExport rows (f @ ''.json'') ''application/json''], Fulfilled)))
   \<and> (items r = Success runs \<and> runs \<noteq> [] \<and> truthy (dataPassId r)
        \<and> list_all run_with_key runs
        \<and> (\<forall>j < length runs.
              usable_answer (g j (dataPassId r) (opt_prop (runs ! j) ''runNumber'')))
        \<longrightarrow> (\<exists>itemsWithFlags rows.
               snd (enrich g (dataPassId r) runs) = Inr itemsWithFlags
             \<and> format_items ef (selectedFields r) itemsWithFlags = Inr rows
             \<and> rdp_createExport g f ef se (r\<lparr>selectedExportType := JStr ''CSV''\<rparr>)
                 = (map (\<lambda>item. Fetch (dataPassId r) (opt_prop item ''runNumber'') 1000) runs
                      @ [CSVExport rows (f @ ''.csv'') ''text/csv;charset=utf-8;''], Fulfilled)
             \<and> rdp_createExport g f ef se (r\<lparr>selectedExportType := JStr ''JSON''\<rparr>)
                 = (map (\<lambda>item. Fetch (dataPassId r) (opt_prop item ''runNumber'') 1000) runs
                      @ [JSONExport rows (f @ ''.json'') ''application/json''], Fulfilled)))"
proof (intro conjI impI)
  show "\<exists>pre c. list_all (\<lambda>e. \<not> is_sink e) pre \<and>
       ((createExport f ef se (m\<lparr>selectedExportType := JStr ''CSV''\<rparr>) = (pre, c)
          \<and> createExport f ef se (m\<lparr>selectedExportType := JStr ''JSON''\<rparr>) = (pre, c))
        \<or> (\<exists>rows.
             createExport f ef se (m\<lparr>selectedExportType := JStr ''CSV''\<rparr>)
               = (pre @ [CSVExport rows (f @ ''.csv'') ''text/csv;charset=utf-8;''], c)
           \<and> createExport f ef se (m\<lparr>selectedExportType := JStr ''JSON''\<rparr>)
               = (pre @ [JSONExport rows (f @ ''.json'') ''application/json''], c)))"
    by (rule createExport_by_type)
  show "\<exists>pre c. list_all (\<lambda>e. \<not> is_sink e) pre \<and>
       ((rdp_createExport g f ef se (r\<lparr>selectedExportType := JStr ''CSV''\<rparr>) = (pre, c)
          \<and> rdp_createExport g f ef se (r\<lparr>selectedExportType := JStr ''JSON''\<rparr>) = (pre, c))
        \<or> (\<exists>rows.
             rdp_createExport g f ef se (r\<lparr>selectedExportType := JStr ''CSV''\<rparr>)
               = (pre @ [CSVExport rows (f @ ''.csv'') ''text/csv;charset=utf-8;''], c)
           \<and> rdp_createExport g f ef se (r\<lparr>selectedExportType := JStr ''JSON''\<rparr>)
               = (pre @ [JSONExport rows (f @ ''.json'') ''application/json''], c)))"
    by (rule rdp_createExport_by_type)
next
  assume a: "items m = Success its \<and> its \<noteq> [] \<and> list_all exportable_item its"
  then obtain rows where rows: "format_items ef (selectedFields m) its = Inr rows"
    using format_items_succeeds by blast
  have "createExport f ef se (m\<lparr>selectedExportType := t\<rparr>) = ([dispatch t f rows], Fulfilled)"
    for t
    using a rows createExport_rows [of "m\<lparr>selectedExportType := t\<rparr>" its ef rows f se]
    by simp
  from this [of "JStr ''CSV''"] this [of "JStr ''JSON''"] rows
  show "\<exists>rows.
      format_items ef (selectedFields m) its = Inr rows
    \<and> createExport f ef se (m\<lparr>selectedExportType := JStr ''CSV''\<rparr>)
        = ([CSVExport rows (f @ ''.csv'') ''text/csv;charset=utf-8;''], Fulfilled)
    \<and> createExport f ef se (m\<lparr>selectedExportType := JStr ''JSON''\<rparr>)
        = ([JSONExport rows (f @ ''.json'') ''application/json''], Fulfilled)"
    by (simp add: dispatch_def)
next
  assume a: "items r = Success runs \<and> runs \<noteq> [] \<and> \<not> truthy (dataPassId r)
      \<and> list_all exportable_item runs"
  then obtain rows where rows: "format_items ef (selectedFields r) runs = Inr rows"
    using format_items_succeeds by blast
  have "rdp_createExport g f ef se (r\<lparr>selectedExportType := t\<rparr>) = ([dispatch t f rows], Fulfilled)"
    for t
  proof -
    have "rdp_createExport g f ef se (r\<lparr>selectedExportType := t\<rparr>)
        = createExport f ef se (r\<lparr>selectedExportType := t\<rparr>)"
      using a by (intro rdp_createExport_falsy) simp
    also have "\<dots> = ([dispatch t f rows], Fulfilled)"
      using a rows createExport_rows [of "r\<lparr>selectedExportType := t\<rparr>" runs ef rows f se]
      by simp
    finally show ?thesis .
  qed
  from this [of "JStr ''CSV''"] this [of "JStr ''JSON''"] rows
  show "\<exists>rows.
      format_items ef (selectedFields r) runs = Inr rows
    \<and> rdp_createExport g f ef se (r\<lparr>selectedExportType := JStr ''CSV''\<rparr>)
        = ([CSVExport rows (f @ ''.csv'') ''text/csv;charset=utf-8;''], Fulfilled)
    \<and> rdp_createExport g f ef se (r\<lparr>selectedExportType := JStr ''JSON''\<rparr>)
        = ([JSONExport rows (f @ ''.json'') ''application/json''], Fulfilled)"
    by (simp add: dispatch_def)
next
  let ?reqs = "map (\<lambda>item. Fetch (dataPassId r) (opt_prop item ''runNumber'') 1000) runs"
  assume a: "items r = Success runs \<and> runs \<noteq> [] \<and> truthy (dataPassId r)
      \<and> list_all run_with_key runs
      \<and> (\<forall>j < length runs.
            usable_answer (g j (dataPassId r) (opt_prop (runs ! j) ''runNumber'')))"
  have run: "\<exists>its' rows.
      enrich g (dataPassId r) runs = (?reqs, Inr its')
    \<and> format_items ef (selectedFields r) its' = Inr rows
    \<and> rdp_createExport g f ef se (r\<lparr>selectedExportType := t\<rparr>)
        = (?reqs @ [dispatch t f rows], Fulfilled)" for t
    using a rdp_createExport_exports
      [where r = "r\<lparr>selectedExportType := t\<rparr>" and its = runs and g = g and ef = ef
        and f = f and se = se]
    by auto
  from run [of "JStr ''CSV''"] obtain its' rows where
    en: "enrich g (dataPassId r) runs = (?reqs, Inr its')" and
    rows: "format_items ef (selectedFields r) its' = Inr rows" and
    csv: "rdp_createExport g f ef se (r\<lparr>selectedExportType := JStr ''CSV''\<rparr>)
        = (?reqs @ [dispatch (JStr ''CSV'') f rows], Fulfilled)"
    by blast
  from run [of "JStr ''JSON''"] en rows have
    json: "rdp_createExport g f ef se (r\<lparr>selectedExportType := JStr ''JSON''\<rparr>)
        = (?reqs @ [dispatch (JStr ''JSON'') f rows], Fulfilled)"
    by auto
  from en rows csv json
  show "\<exists>itemsWithFlags rows.
      snd (enrich g (dataPassId r) runs) = Inr itemsWithFlags
    \<and> format_items ef (selectedFields r) itemsWithFlags = Inr rows
    \<and> rdp_createExport g f ef se (r\<lparr>selectedExportType := JStr ''CSV''\<rparr>)
        = (?reqs @ [CSVExport rows (f @ ''.csv'') ''text/csv;charset=utf-8;''], Fulfilled)
    \<and> rdp_createExport g f ef se (r\<lparr>selectedExportType := JStr ''JSON''\<rparr>)
        = (?reqs @ [JSONExport rows (f @ ''.json'') ''application/json''], Fulfilled)"
    by (intro exI [of _ its'] exI [of _ rows]) (simp add: dispatch_def)
qed

theorem export_type_changes_destination_only_witness:
  "createExport ''runs'' Map.empty True
     \<lparr>items = Success [run_1], selectedFields = [''runNumber''], selectedExportType = JStr ''JSON''\<rparr>
     = ([JSONExport [run_1_row] ''runs.json'' ''application/json''], Fulfilled)
   \<and> rdp_createExport flaky_remote ''runs'' Map.empty True
       \<lparr>items = Success [run_5, run_6], selectedFields = [''runNumber''],
        selectedExportType = JStr ''CSV'', dataPassId = JNum 7\<rparr>
     = ([Fetch (JNum 7) (JNum 5) 1000, Fetch (JNum 7) (JNum 6) 1000,
         CSVExport [[(''runNumber'', JNum 5), (''TPC'', JStr [])], run_6_row]
           ''runs.csv'' ''text/csv;charset=utf-8;''], Fulfilled)
   \<and> rdp_createExport flaky_remote ''runs'' Map.empty True
       \<lparr>items = Success [run_5, run_6], selectedFields = [''runNumber''],
        selectedExportType = JStr ''JSON'', dataPassId = JNum 7\<rparr>
     = ([Fetch (JNum 7) (JNum 5) 1000, Fetch (JNum 7) (JNum 6) 1000,
         JSONExport [[(''runNumber'', JNum 5), (''TPC'', JStr [])], run_6_row]
           ''runs.json'' ''application/json''], Fulfilled)"
proof -
  let ?m = "\<lparr>items = Success [run_1], selectedFields = [''runNumber''],
             selectedExportType = JStr ''JSON''\<rparr>"
  let ?r = "\<lparr>items = Success [run_5, run_6], selectedFields = [''runNumber''],
        selectedExportType = JStr ''JSON'', dataPassId = JNum 7\<rparr>"
  let ?rows = "[[(''runNumber'', JNum 5), (''TPC'', JStr [])], run_6_row]"
  note both = export_type_changes_destination_only
      [where f = "''runs''" and ef = Map.empty and se = True and m = ?m and r = ?r
        and g = flaky_remote and its = "[run_1]" and runs = "[run_5, run_6]"]
  have base: "items ?m = Success [run_1] \<and> [run_1] \<noteq> [] \<and> list_all exportable_item [run_1]"
    by (simp add: run_1_exportable [simplified])
  from both [THEN conjunct2, THEN conjunct2, THEN conjunct1, rule_format, OF base]
  obtain rows where "format_items Map.empty (selectedFields ?m) [run_1] = Inr rows"
    and "createExport ''runs'' Map.empty True (?m\<lparr>selectedExportType := JStr ''JSON''\<rparr>)
           = ([JSONExport rows (''runs'' @ ''.json'') ''application/json''], Fulfilled)"
    by blast
  then have one: "createExport ''runs'' Map.empty True ?m
      = ([JSONExport [run_1_row] ''runs.json'' ''application/json''], Fulfilled)"
    by (simp add: run_1_rows)
  have enriched: "items ?r = Success [run_5, run_6] \<and> [run_5, run_6] \<noteq> []
      \<and> truthy (dataPassId ?r) \<and> list_all run_with_key [run_5, run_6]
      \<and> (\<forall>j < length [run_5, run_6].
            usable_answer (flaky_remote j (dataPassId ?r) (opt_prop ([run_5, run_6] ! j) ''runNumber'')))"
    using runs_5_6_with_keys by (simp add: flaky_remote_usable)
  from both [THEN conjunct2, THEN conjunct2, THEN conjunct2, THEN conjunct2, rule_format,
      OF enriched]
  obtain rows where
    csv: "rdp_createExport flaky_remote ''runs'' Map.empty True (?r\<lparr>selectedExportType := JStr ''CSV''\<rparr>)
        = (map (\<lambda>item. Fetch (dataPassId ?r) (opt_prop item ''runNumber'') 1000) [run_5, run_6]
             @ [CSVExport rows (''runs'' @ ''.csv'') ''text/csv;charset=utf-8;''], Fulfilled)" and
    json: "rdp_createExport flaky_remote ''runs'' Map.empty True (?r\<lparr>selectedExportType := JStr ''JSON''\<rparr>)
        = (map (\<lambda>item. Fetch (dataPassId ?r) (opt_prop item ''runNumber'') 1000) [run_5, run_6]
             @ [JSONExport rows (''runs'' @ ''.json'') ''application/json''], Fulfilled)"
    by blast
  have rn: "opt_prop run_5 ''runNumber'' = JNum 5" "opt_prop run_6 ''runNumber'' = JNum 6"
    by (simp_all add: run_5_def run_6_def)
  from csv have "rows = ?rows"
    by (simp add: flaky_rows_csv rn)
  with json have "rdp_createExport flaky_remote ''runs'' Map.empty True ?r
      = ([Fetch (JNum 7) (JNum 5) 1000, Fetch (JNum 7) (JNum 6) 1000,
          JSONExport ?rows ''runs.json'' ''application/json''], Fulfilled)"
    by (simp add: rn)
  with one flaky_rows_csv show ?thesis
    by simp
qed

end
